theory Spec2Isabelle
  imports Main "HOL-Library.Sublist" "HOL-Library.List_Lexorder" "HOL-Library.AList"
    "HOL-Library.Code_Target_Nat"
begin

section \<open>Python strings\<close>

text \<open>
  A Python \<^verbatim>\<open>str\<close> is a sequence of Unicode code points; \<^verbatim>\<open>len\<close>, slicing,
  \<^verbatim>\<open>in\<close> and comparison all work on code points. A string is therefore a list of code
  points, each a natural number. ASCII literals are written through \<open>u\<close>; the emoji
  labels and the CJK words of the scripts are written out as code point lists.
\<close>

type_synonym ustr = "nat list"

definition u :: "string \<Rightarrow> ustr" where
  "u s = map of_char s"

text \<open>\<^verbatim>\<open>keyword in text\<close> on strings: \<open>keyword\<close> occurs in \<open>text\<close> as a contiguous run.\<close>

fun py_in :: "ustr \<Rightarrow> ustr \<Rightarrow> bool" where
  "py_in keyword [] = (keyword = [])"
| "py_in keyword (c # cs) = (prefix keyword (c # cs) \<or> py_in keyword cs)"

text \<open>\<^verbatim>\<open>any(keyword in text for keyword in [...])\<close>\<close>

definition any_in :: "ustr list \<Rightarrow> ustr \<Rightarrow> bool" where
  "any_in keywords text = list_ex (\<lambda>keyword. py_in keyword text) keywords"

text \<open>
  \<^verbatim>\<open>str.lower\<close> is Python's own: it follows the Unicode case tables and is no code of
  these scripts. Every function that calls it takes it as the parameter \<open>lower\<close>, and
  what is proved holds for each such function. On text whose letters are all ASCII
  \<^verbatim>\<open>str.lower\<close> is \<open>ascii_lower\<close>, which the concrete evaluations use.
\<close>

definition ascii_lower :: "ustr \<Rightarrow> ustr" where
  "ascii_lower s = map (\<lambda>c. if 65 \<le> c \<and> c \<le> 90 then c + 32 else c) s"

section \<open>The tag vocabulary\<close>

text \<open>The display labels, as the three scripts spell them (an emoji, a space, the name).\<close>

definition TagAI :: ustr where "TagAI = [129504, 32] @ u ''AI''"
definition TagLanguages :: ustr where "TagLanguages = [128483, 65039, 32] @ u ''Languages''"
definition TagWeb3 :: ustr where "TagWeb3 = [9939, 65039, 32] @ u ''Web3''"
definition TagDatabase :: ustr where "TagDatabase = [128451, 65039, 32] @ u ''Database''"
definition TagSecurity :: ustr where "TagSecurity = [128274, 32] @ u ''Security''"
definition TagHardware :: ustr where "TagHardware = [128736, 65039, 32] @ u ''Hardware''"
definition TagVehicle :: ustr where "TagVehicle = [128663, 32] @ u ''Vehicle''"
definition TagNetwork :: ustr where "TagNetwork = [127760, 32] @ u ''Network''"
definition TagDevOps :: ustr where "TagDevOps = [128640, 65039, 32] @ u ''DevOps''"
definition TagSystem :: ustr where "TagSystem = [128187, 32] @ u ''System''"
definition TagEnterprise :: ustr where "TagEnterprise = [127970, 32] @ u ''Enterprise''"
definition TagData :: ustr where "TagData = [128202, 32] @ u ''Data''"
definition TagGaming :: ustr where "TagGaming = [127918, 32] @ u ''Gaming''"
definition TagAgriculture :: ustr where "TagAgriculture = [127806, 32] @ u ''Agriculture''"
definition TagHealthcare :: ustr where "TagHealthcare = [9877, 65039, 32] @ u ''Healthcare''"
definition TagKeynote :: ustr where "TagKeynote = [128273, 32] @ u ''Keynote''"
definition TagPolicy :: ustr where "TagPolicy = [128220, 65039, 32] @ u ''Policy''"
definition TagGlobal :: ustr where "TagGlobal = [127757, 32] @ u ''Global''"
definition TagOpenData :: ustr where "TagOpenData = [128080, 65039, 32] @ u ''OpenData''"
definition TagEducation :: ustr where "TagEducation = [127891, 32] @ u ''Education''"
definition TagSocial :: ustr where "TagSocial = [127867, 32] @ u ''Social''"
definition TagSideProject :: ustr where "TagSideProject = [128161, 32] @ u ''SideProject''"

section \<open>The canonical session\<close>

text \<open>
  The dictionary that \<^verbatim>\<open>process_session\<close> returns and that the generators read. The key
  \<^verbatim>\<open>end\<close> is the field \<open>end_time\<close>.
\<close>

record session =
  code :: ustr
  title :: ustr
  speakers :: "ustr list"
  start :: ustr
  end_time :: ustr
  track :: ustr
  abstract :: ustr
  language :: ustr
  difficulty :: ustr
  room :: ustr
  day :: ustr
  tags :: "ustr list"
  url :: ustr

section \<open>The keyword classifier of the pretalx path (fetch\_pretalx\_data.py)\<close>

text \<open>
  The twelve \<^verbatim>\<open>if any(...): tags.append(...)\<close> statements of
  \<^verbatim>\<open>classify_session_tags\<close>, in the order of the source; \<open>text\<close> is the lowercased text.
\<close>

definition classify_collect :: "ustr \<Rightarrow> ustr list" where
  "classify_collect text =
     (if any_in [u ''ai'', u ''machine learning'', u ''neural'', u ''deep learning'', u ''llm'',
                 u ''chatgpt''] text then [TagAI] else []) @
     (if any_in [u ''security'', u ''secure'', u ''attack'', u ''vulnerability'', u ''encryption'',
                 u ''privacy''] text then [TagSecurity] else []) @
     (if any_in [u ''python'', u ''go'', u ''rust'', u ''javascript'', u ''kotlin'', u ''java'',
                 u ''ruby''] text then [TagLanguages] else []) @
     (if any_in [u ''database'', u ''sql'', u ''postgresql'', u ''mysql'', u ''redis''] text
      then [TagDatabase] else []) @
     (if any_in [u ''devops'', u ''kubernetes'', u ''docker'', u ''cloud'', u ''deployment''] text
      then [TagDevOps] else []) @
     (if any_in [u ''hardware'', u ''raspberry pi'', u ''iot'', u ''embedded''] text
      then [TagHardware] else []) @
     (if any_in [u ''blockchain'', u ''web3'', u ''cryptocurrency'', u ''nft''] text
      then [TagWeb3] else []) @
     (if any_in [u ''network'', u ''tcp'', u ''http'', u ''api''] text then [TagNetwork] else []) @
     (if any_in [u ''system'', u ''linux'', u ''kernel'', u ''operating''] text
      then [TagSystem] else []) @
     (if any_in [u ''education'', u ''teaching'', u ''learning'', u ''student''] text
      then [TagEducation] else []) @
     (if any_in [u ''policy'', u ''license'', u ''legal'', u ''governance''] text
      then [TagPolicy] else []) @
     (if any_in [u ''social'', u ''community'', u ''networking'', u ''chat''] text
      then [TagSocial] else [])"

text \<open>\<^verbatim>\<open>text = f"{track_name} {title} {abstract}".lower()\<close>\<close>

definition classify_text :: "(ustr \<Rightarrow> ustr) \<Rightarrow> ustr \<Rightarrow> ustr \<Rightarrow> ustr \<Rightarrow> ustr" where
  "classify_text lower track_name ttl abstr = lower (track_name @ u '' '' @ ttl @ u '' '' @ abstr)"

definition classify_session_tags ::
    "(ustr \<Rightarrow> ustr) \<Rightarrow> ustr \<Rightarrow> ustr \<Rightarrow> ustr \<Rightarrow> ustr list" where
  "classify_session_tags lower track_name ttl abstr =
     (let text = classify_text lower track_name ttl abstr;
          tgs = classify_collect text
      in if tgs = []
         then (if py_in (u ''keynote'') text \<or> py_in (u ''opening'') text
               then [TagKeynote] else [TagSystem])
         else tgs)"

text \<open>
  The rule table the specification speaks of: the rules of \<^verbatim>\<open>classify_session_tags\<close> in
  their order of declaration, each a tag with its keywords. A rule fires on a text when
  one of its keywords is a substring of the text, and the firing tags are the tags of the
  firing rules, in table order.
\<close>

definition classify_rules :: "(ustr \<times> ustr list) list" where
  "classify_rules =
     [(TagAI, [u ''ai'', u ''machine learning'', u ''neural'', u ''deep learning'', u ''llm'',
               u ''chatgpt'']),
      (TagSecurity, [u ''security'', u ''secure'', u ''attack'', u ''vulnerability'',
                     u ''encryption'', u ''privacy'']),
      (TagLanguages, [u ''python'', u ''go'', u ''rust'', u ''javascript'', u ''kotlin'', u ''java'',
                      u ''ruby'']),
      (TagDatabase, [u ''database'', u ''sql'', u ''postgresql'', u ''mysql'', u ''redis'']),
      (TagDevOps, [u ''devops'', u ''kubernetes'', u ''docker'', u ''cloud'', u ''deployment'']),
      (TagHardware, [u ''hardware'', u ''raspberry pi'', u ''iot'', u ''embedded'']),
      (TagWeb3, [u ''blockchain'', u ''web3'', u ''cryptocurrency'', u ''nft'']),
      (TagNetwork, [u ''network'', u ''tcp'', u ''http'', u ''api'']),
      (TagSystem, [u ''system'', u ''linux'', u ''kernel'', u ''operating'']),
      (TagEducation, [u ''education'', u ''teaching'', u ''learning'', u ''student'']),
      (TagPolicy, [u ''policy'', u ''license'', u ''legal'', u ''governance'']),
      (TagSocial, [u ''social'', u ''community'', u ''networking'', u ''chat''])]"

definition fires :: "ustr \<Rightarrow> ustr \<times> ustr list \<Rightarrow> bool" where
  "fires text rule = list_ex (\<lambda>keyword. sublist keyword text) (snd rule)"

definition firing_tags :: "(ustr \<times> ustr list) list \<Rightarrow> ustr \<Rightarrow> ustr list" where
  "firing_tags rules text = map fst (filter (fires text) rules)"

section \<open>The fallback classifier of the alignment script (align\_data.py)\<close>

definition fallback_collect :: "ustr \<Rightarrow> ustr list" where
  "fallback_collect text =
     (if any_in [u ''security'', u ''secure'', u ''attack'', u ''vulnerability'', u ''encryption'']
         text then [TagSecurity] else []) @
     (if any_in [u ''kernel'', u ''linux'', u ''system'', u ''os'', u ''operating''] text
      then [TagSystem] else []) @
     (if any_in [u ''ai'', u ''machine learning'', u ''neural'', u ''deep learning'', u ''llm''] text
      then [TagAI] else []) @
     (if any_in [u ''python'', u ''go'', u ''rust'', u ''javascript'', u ''kotlin'', u ''java'',
                 u ''ruby''] text then [TagLanguages] else []) @
     (if any_in [u ''database'', u ''sql'', u ''postgresql'', u ''mysql''] text
      then [TagDatabase] else []) @
     (if any_in [u ''devops'', u ''kubernetes'', u ''docker'', u ''cloud''] text
      then [TagDevOps] else []) @
     (if any_in [u ''hardware'', u ''raspberry pi'', u ''iot'', u ''embedded''] text
      then [TagHardware] else []) @
     (if any_in [u ''blockchain'', u ''web3'', u ''cryptocurrency''] text then [TagWeb3] else []) @
     (if any_in [u ''network'', u ''tcp'', u ''http'', u ''api''] text then [TagNetwork] else []) @
     (if any_in [u ''policy'', u ''license'', u ''legal'', u ''governance''] text
      then [TagPolicy] else []) @
     (if any_in [u ''social'', u ''community'', u ''networking'', u ''chat''] text
      then [TagSocial] else [])"

text \<open>\<^verbatim>\<open>text = f"{session['track']} {session['title']} {session.get('abstract', '')}".lower()\<close>\<close>

definition fallback_text :: "(ustr \<Rightarrow> ustr) \<Rightarrow> session \<Rightarrow> ustr" where
  "fallback_text lower s = lower (track s @ u '' '' @ title s @ u '' '' @ abstract s)"

definition generate_fallback_tags :: "(ustr \<Rightarrow> ustr) \<Rightarrow> session \<Rightarrow> ustr list" where
  "generate_fallback_tags lower s =
     (let text = fallback_text lower s;
          tgs = fallback_collect text
      in if tgs = []
         then (if py_in (u ''keynote'') text \<or> py_in (u ''opening'') text
               then [TagKeynote] else [TagSystem])
         else tgs)"

section \<open>The raw records of the pretalx API\<close>

text \<open>
  The JSON objects \<^verbatim>\<open>process_session\<close> reads. A key the code subscripts
  (\<^verbatim>\<open>submission['code']\<close>, \<^verbatim>\<open>submission['title']\<close>) is a plain field; a key it reads with
  \<^verbatim>\<open>.get\<close> is an optional field, \<open>None\<close> when the key is absent (or, where the code
  tests the value for truth, when it is \<^verbatim>\<open>null\<close>). Room and track identifiers are the
  integers of the API. A name is a dictionary from locale to text.
\<close>

record slot =
  slot_start :: "ustr option"
  slot_end :: "ustr option"
  slot_room :: "int option"

record answer =
  answer_question :: "int option"
  answer_answer :: "ustr option"

record submission =
  sub_code :: ustr
  sub_title :: ustr
  sub_speakers :: "ustr list option"
  sub_track :: "int option"
  sub_abstract :: "ustr option"
  sub_slots :: "slot list option"
  sub_answers :: "answer list option"

record named =
  name :: "(ustr \<rightharpoonup> ustr) option"

record speaker =
  speaker_name :: "ustr option"

datatype error = KeyError | ValueError

text \<open>
  What the code reads of a \<^verbatim>\<open>datetime\<close>. \<^verbatim>\<open>datetime.fromisoformat\<close> is Python's own and
  is the parameter \<open>fromisoformat\<close> of the functions below; it answers \<open>None\<close> where
  Python raises \<^verbatim>\<open>ValueError\<close>. \<^verbatim>\<open>replace(tzinfo=None)\<close> drops the offset and keeps every
  field, so the offset is no field here.
\<close>

record datetime =
  dt_year :: nat
  dt_month :: nat
  dt_day :: nat
  dt_hour :: nat
  dt_minute :: nat
  dt_second :: nat

section \<open>Python helpers\<close>

text \<open>Truth of an optional string: \<^verbatim>\<open>None\<close> and the empty string are false.\<close>

fun truthy :: "ustr option \<Rightarrow> bool" where
  "truthy None = False"
| "truthy (Some s) = (s \<noteq> [])"

text \<open>\<^verbatim>\<open>a or b\<close> on optional strings, and \<^verbatim>\<open>a or "default"\<close>.\<close>

definition py_or :: "ustr option \<Rightarrow> ustr option \<Rightarrow> ustr option" where
  "py_or a b = (if truthy a then a else b)"

definition or_else :: "ustr option \<Rightarrow> ustr \<Rightarrow> ustr" where
  "or_else a d = (case a of Some (c # cs) \<Rightarrow> c # cs | _ \<Rightarrow> d)"

text \<open>\<^verbatim>\<open>str(n)\<close> for an integer: its decimal digits, with a minus sign when negative.\<close>

function str_nat :: "nat \<Rightarrow> ustr" where
  "str_nat n = (if n < 10 then [48 + n] else str_nat (n div 10) @ [48 + n mod 10])"
  by pat_completeness auto
termination
  by (relation "measure id") auto

definition str_int :: "int \<Rightarrow> ustr" where
  "str_int i = (if i < 0 then u ''-'' @ str_nat (nat (- i)) else str_nat (nat i))"

text \<open>\<^verbatim>\<open>s.replace('Z', '+00:00')\<close>: every \<^verbatim>\<open>Z\<close> (code point 90) is replaced.\<close>

definition replace_Z :: "ustr \<Rightarrow> ustr" where
  "replace_Z s = concat (map (\<lambda>c. if c = 90 then u ''+00:00'' else [c]) s)"

text \<open>\<^verbatim>\<open>strftime("%H:%M")\<close>: hour and minute, each padded with a zero to two digits.\<close>

definition pad2 :: "nat \<Rightarrow> ustr" where
  "pad2 n = (if n < 10 then u ''0'' @ str_nat n else str_nat n)"

definition strftime_HM :: "datetime \<Rightarrow> ustr" where
  "strftime_HM dt = pad2 (dt_hour dt) @ u '':'' @ pad2 (dt_minute dt)"

text \<open>
  \<^verbatim>\<open>str.strip()\<close> removes leading and trailing white space; \<open>isspace\<close> lists the code
  points for which \<^verbatim>\<open>str.isspace\<close> holds.
\<close>

definition isspace :: "nat \<Rightarrow> bool" where
  "isspace c \<longleftrightarrow>
     (9 \<le> c \<and> c \<le> 13) \<or> (28 \<le> c \<and> c \<le> 32) \<or> c = 133 \<or> c = 160 \<or> c = 5760 \<or>
     (8192 \<le> c \<and> c \<le> 8202) \<or> c = 8232 \<or> c = 8233 \<or> c = 8239 \<or> c = 8287 \<or> c = 12288"

definition strip :: "ustr \<Rightarrow> ustr" where
  "strip s = rev (dropWhile isspace (rev (dropWhile isspace s)))"

section \<open>The Session Normalizer (fetch\_pretalx\_data.py)\<close>

text \<open>
  \<^verbatim>\<open>parse_slot_time\<close>: start and end as \<^verbatim>\<open>HH:MM\<close> and the day label, all read off the
  parsed start and end with the offset dropped.
\<close>

definition parse_slot_time ::
    "(ustr \<Rightarrow> datetime option) \<Rightarrow> slot \<Rightarrow> error + (ustr \<times> ustr \<times> ustr)" where
  "parse_slot_time fromisoformat sl =
     (case slot_start sl of
        None \<Rightarrow> Inl KeyError
      | Some st \<Rightarrow>
         (case fromisoformat (replace_Z st) of
            None \<Rightarrow> Inl ValueError
          | Some start_dt \<Rightarrow>
             (case slot_end sl of
                None \<Rightarrow> Inl KeyError
              | Some en \<Rightarrow>
                 (case fromisoformat (replace_Z en) of
                    None \<Rightarrow> Inl ValueError
                  | Some end_dt \<Rightarrow>
                      Inr (strftime_HM start_dt, strftime_HM end_dt,
                           u ''Aug.'' @ str_nat (dt_day start_dt))))))"

text \<open>\<^verbatim>\<open>get_answer_value\<close>: the stripped answer of the first entry for the question.\<close>

fun get_answer_value :: "answer list \<Rightarrow> int \<Rightarrow> ustr option" where
  "get_answer_value [] question_id = None"
| "get_answer_value (a # answers) question_id =
     (if answer_question a = Some question_id
      then Some (strip (case answer_answer a of None \<Rightarrow> [] | Some v \<Rightarrow> v))
      else get_answer_value answers question_id)"

text \<open>\<^verbatim>\<open>info.get('name', {}).get(locale)\<close>\<close>

definition get_name :: "named \<Rightarrow> ustr \<Rightarrow> ustr option" where
  "get_name info locale = (case name info of None \<Rightarrow> None | Some names \<Rightarrow> names locale)"

text \<open>\<^verbatim>\<open>rooms.get(room_id, {})\<close> and \<^verbatim>\<open>tracks.get(track_id, {}) if track_id else {}\<close>\<close>

definition get_info :: "(int \<rightharpoonup> named) \<Rightarrow> int \<Rightarrow> named" where
  "get_info table i = (case table i of None \<Rightarrow> \<lparr>name = None\<rparr> | Some info \<Rightarrow> info)"

definition get_track_info :: "(int \<rightharpoonup> named) \<Rightarrow> int option \<Rightarrow> named" where
  "get_track_info tracks track_id =
     (case track_id of
        None \<Rightarrow> \<lparr>name = None\<rparr>
      | Some t \<Rightarrow> if t = 0 then \<lparr>name = None\<rparr> else get_info tracks t)"

definition resolve_room_name :: "(int \<rightharpoonup> named) \<Rightarrow> int \<Rightarrow> ustr" where
  "resolve_room_name rooms room_id =
     (let room_info = get_info rooms room_id
      in or_else (py_or (get_name room_info (u ''en'')) (get_name room_info (u ''zh-tw'')))
           (u ''Room'' @ str_int room_id))"

definition resolve_track_name :: "(int \<rightharpoonup> named) \<Rightarrow> int option \<Rightarrow> ustr" where
  "resolve_track_name tracks track_id =
     (let track_info = get_track_info tracks track_id
      in or_else (py_or (get_name track_info (u ''zh-tw'')) (get_name track_info (u ''en'')))
           (u ''General''))"

text \<open>The speaker's name, or the raw code when the table has none.\<close>

definition speaker_names :: "(ustr \<rightharpoonup> speaker) \<Rightarrow> ustr list \<Rightarrow> ustr list" where
  "speaker_names speaker_table codes =
     map (\<lambda>speaker_code.
            case speaker_table speaker_code of
              None \<Rightarrow> speaker_code
            | Some sp \<Rightarrow> (case speaker_name sp of None \<Rightarrow> speaker_code | Some n \<Rightarrow> n))
         codes"

text \<open>
  The vocabulary tables. The values are the CJK words of the source: 20837 38272 is the
  word for Beginner, 20013 38542 Intermediate, 36914 38542 Advanced; 28450 35486 is the
  word for Chinese, 33521 35486 English, 26085 26412 35486 Japanese.
\<close>

definition difficulty_map :: "ustr \<rightharpoonup> ustr" where
  "difficulty_map =
     map_of [(u ''Beginner'', [20837, 38272]),
             (u ''Intermediate'', [20013, 38542]),
             (u ''Advanced'', [36914, 38542])]"

definition language_map :: "ustr \<rightharpoonup> ustr" where
  "language_map =
     map_of [(u ''Chinese'', [28450, 35486]),
             (u ''English'', [33521, 35486]),
             (u ''Japanese'', [26085, 26412, 35486])]"

text \<open>\<^verbatim>\<open>table.get(value, value)\<close>\<close>

definition get_or_self :: "(ustr \<rightharpoonup> ustr) \<Rightarrow> ustr \<Rightarrow> ustr" where
  "get_or_self table v = (case table v of None \<Rightarrow> v | Some w \<Rightarrow> w)"

text \<open>
  The value handed to each table: the stripped answer to question 59 (difficulty) or 57
  (language), and the default word when there is no answer or it is empty.
\<close>

definition difficulty_value :: "submission \<Rightarrow> ustr" where
  "difficulty_value submission =
     or_else (get_answer_value (case sub_answers submission of None \<Rightarrow> [] | Some a \<Rightarrow> a) 59)
       [20837, 38272]"

definition language_value :: "submission \<Rightarrow> ustr" where
  "language_value submission =
     or_else (get_answer_value (case sub_answers submission of None \<Rightarrow> [] | Some a \<Rightarrow> a) 57)
       [28450, 35486]"

text \<open>\<^verbatim>\<open>abstract[:200] + '...' if len(abstract) > 200 else abstract\<close>\<close>

definition truncate_abstract :: "ustr \<Rightarrow> ustr" where
  "truncate_abstract abstr = (if length abstr > 200 then take 200 abstr @ u ''...'' else abstr)"

text \<open>
  \<^verbatim>\<open>process_session\<close>. \<open>Inr None\<close> is the \<^verbatim>\<open>return None\<close> of a skipped record,
  \<open>Inr (Some s)\<close> the session, \<open>Inl e\<close> an exception. The messages printed on a skip
  are left out. The parameter \<^verbatim>\<open>speakers\<close> of the source is \<open>speaker_table\<close> here.
\<close>

definition process_session ::
    "(ustr \<Rightarrow> ustr) \<Rightarrow> (ustr \<Rightarrow> datetime option) \<Rightarrow> submission \<Rightarrow> (ustr \<rightharpoonup> speaker) \<Rightarrow>
     (int \<rightharpoonup> named) \<Rightarrow> (int \<rightharpoonup> named) \<Rightarrow> error + session option" where
  "process_session lower fromisoformat submission speaker_table rooms tracks =
     (case sub_slots submission of
        None \<Rightarrow> Inr None
      | Some [] \<Rightarrow> Inr None
      | Some (sl # later) \<Rightarrow>
          if \<not> truthy (slot_start sl) \<or> \<not> truthy (slot_end sl) \<or>
             slot_room sl = None \<or> slot_room sl = Some 0
          then Inr None
          else
            (case parse_slot_time fromisoformat sl of
               Inl e \<Rightarrow> Inl e
             | Inr (start_tm, end_tm, dy) \<Rightarrow>
                 (case slot_room sl of
                    None \<Rightarrow> Inr None
                  | Some room_id \<Rightarrow>
                      let room_name = resolve_room_name rooms room_id;
                          track_name = resolve_track_name tracks (sub_track submission);
                          names = speaker_names speaker_table
                                    (case sub_speakers submission of None \<Rightarrow> [] | Some cs \<Rightarrow> cs);
                          dif = get_or_self difficulty_map (difficulty_value submission);
                          lang = get_or_self language_map (language_value submission);
                          abstr = (case sub_abstract submission of None \<Rightarrow> [] | Some a \<Rightarrow> a);
                          tgs = classify_session_tags lower track_name (sub_title submission) abstr
                      in Inr (Some \<lparr>code = sub_code submission,
                                    title = sub_title submission,
                                    speakers = names,
                                    start = start_tm,
                                    end_time = end_tm,
                                    track = track_name,
                                    abstract = truncate_abstract abstr,
                                    language = lang,
                                    difficulty = dif,
                                    room = room_name,
                                    day = dy,
                                    tags = tgs,
                                    url = u ''https://coscup.org/2025/sessions/'' @
                                          sub_code submission\<rparr>))))"

section \<open>The Aggregator (the loop of \<^verbatim>\<open>run\<close>, fetch\_pretalx\_data.py)\<close>

text \<open>
  A dictionary that the code iterates over is an association list in insertion order;
  \<open>AList.update\<close> keeps the place of a key that is there and appends a new one, as
  assignment to a Python \<^verbatim>\<open>dict\<close> does. \<^verbatim>\<open>sessions_by_day_room\<close> maps a day to a
  dictionary from room to the list of sessions.
\<close>

type_synonym rooms_of_day = "(ustr \<times> session list) list"
type_synonym sessions_by_day_room = "(ustr \<times> rooms_of_day) list"

text \<open>
  The body of the loop for one session: the day's dictionary and the room's list are
  created when missing, and the session is appended to the room's list.
\<close>

definition add_session :: "session \<Rightarrow> sessions_by_day_room \<Rightarrow> sessions_by_day_room" where
  "add_session s by_day =
     (let rooms_of_day = (case map_of by_day (day s) of None \<Rightarrow> [] | Some rs \<Rightarrow> rs);
          bucket = (case map_of rooms_of_day (room s) of None \<Rightarrow> [] | Some b \<Rightarrow> b)
      in AList.update (day s) (AList.update (room s) (bucket @ [s]) rooms_of_day) by_day)"

text \<open>
  \<^verbatim>\<open>for submission in submissions\<close>: a skipped record leaves the dictionary as it is, an
  exception of \<^verbatim>\<open>process_session\<close> ends the run.
\<close>

fun run_loop ::
    "(ustr \<Rightarrow> ustr) \<Rightarrow> (ustr \<Rightarrow> datetime option) \<Rightarrow> (ustr \<rightharpoonup> speaker) \<Rightarrow> (int \<rightharpoonup> named) \<Rightarrow>
     (int \<rightharpoonup> named) \<Rightarrow> submission list \<Rightarrow> sessions_by_day_room \<Rightarrow>
     error + sessions_by_day_room" where
  "run_loop lower fromisoformat speaker_table rooms tracks [] by_day = Inr by_day"
| "run_loop lower fromisoformat speaker_table rooms tracks (submission # submissions) by_day =
     (case process_session lower fromisoformat submission speaker_table rooms tracks of
        Inl e \<Rightarrow> Inl e
      | Inr None \<Rightarrow> run_loop lower fromisoformat speaker_table rooms tracks submissions by_day
      | Inr (Some s) \<Rightarrow>
          run_loop lower fromisoformat speaker_table rooms tracks submissions
            (add_session s by_day))"

text \<open>
  \<^verbatim>\<open>sessions_by_day_room[day][room].sort(key=lambda s: s['start'])\<close> for every day and
  room. \<^verbatim>\<open>list.sort\<close> is stable and compares the keys as strings, that is
  lexicographically by code point; so does \<open>sort_key\<close> on lists of code points.
\<close>

definition sort_rooms :: "sessions_by_day_room \<Rightarrow> sessions_by_day_room" where
  "sort_rooms by_day =
     map (\<lambda>(d, rooms_of_day). (d, map (\<lambda>(r, bucket). (r, sort_key start bucket)) rooms_of_day))
       by_day"

text \<open>
  \<^verbatim>\<open>run\<close>, with the four fetched collections as arguments; the progress messages and the
  counter that only feeds them are left out.
\<close>

definition run ::
    "(ustr \<Rightarrow> ustr) \<Rightarrow> (ustr \<Rightarrow> datetime option) \<Rightarrow> submission list \<Rightarrow> (ustr \<rightharpoonup> speaker) \<Rightarrow>
     (int \<rightharpoonup> named) \<Rightarrow> (int \<rightharpoonup> named) \<Rightarrow> error + sessions_by_day_room" where
  "run lower fromisoformat submissions speaker_table rooms tracks =
     (case run_loop lower fromisoformat speaker_table rooms tracks submissions [] of
        Inl e \<Rightarrow> Inl e
      | Inr by_day \<Rightarrow> Inr (sort_rooms by_day))"

text \<open>
  The batch of normalized sessions of a run: the sessions \<^verbatim>\<open>process_session\<close> yields for
  the submissions, in the order of the submissions.
\<close>

fun normalized_batch ::
    "(ustr \<Rightarrow> ustr) \<Rightarrow> (ustr \<Rightarrow> datetime option) \<Rightarrow> (ustr \<rightharpoonup> speaker) \<Rightarrow> (int \<rightharpoonup> named) \<Rightarrow>
     (int \<rightharpoonup> named) \<Rightarrow> submission list \<Rightarrow> error + session list" where
  "normalized_batch lower fromisoformat speaker_table rooms tracks [] = Inr []"
| "normalized_batch lower fromisoformat speaker_table rooms tracks (submission # submissions) =
     (case process_session lower fromisoformat submission speaker_table rooms tracks of
        Inl e \<Rightarrow> Inl e
      | Inr x \<Rightarrow>
         (case normalized_batch lower fromisoformat speaker_table rooms tracks submissions of
            Inl e \<Rightarrow> Inl e
          | Inr batch \<Rightarrow> Inr (case x of None \<Rightarrow> batch | Some s \<Rightarrow> s # batch)))"

text \<open>The list of a day and room in the aggregate, empty when there is none.\<close>

definition get_bucket :: "sessions_by_day_room \<Rightarrow> ustr \<Rightarrow> ustr \<Rightarrow> session list" where
  "get_bucket by_day d r =
     (case map_of by_day d of
        None \<Rightarrow> []
      | Some rooms_of_day \<Rightarrow> (case map_of rooms_of_day r of None \<Rightarrow> [] | Some b \<Rightarrow> b))"

section \<open>The aligned generator (align\_data.py)\<close>

text \<open>
  \<^verbatim>\<open>s.replace(c, r)\<close> for a single character \<open>c\<close>, the join of strings with a separator,
  and the escaping of a title, track or abstract: backslash (92), double quote (34), line
  feed (10) and carriage return (13) are replaced in this order, each by a backslash and
  a character.
\<close>

definition replace_char :: "nat \<Rightarrow> ustr \<Rightarrow> ustr \<Rightarrow> ustr" where
  "replace_char c r s = concat (map (\<lambda>x. if x = c then r else [x]) s)"

fun join :: "ustr \<Rightarrow> ustr list \<Rightarrow> ustr" where
  "join sep [] = []"
| "join sep [x] = x"
| "join sep (x # y # ys) = x @ sep @ join sep (y # ys)"

definition escape_go :: "ustr \<Rightarrow> ustr" where
  "escape_go s =
     replace_char 13 [92, 114]
       (replace_char 10 [92, 110] (replace_char 34 [92, 34] (replace_char 92 [92, 92] s)))"

text \<open>The text the generator starts from: the package line and the tag constants.\<close>

definition go_header :: ustr where
  "go_header =
     u ''package mcp'' @ [10] @
     [10] @
     u ''// Universal session tags with emojis'' @ [10] @
     u ''const ('' @ [10] @
     [9] @ u ''TagAI          = '' @ [34] @ TagAI @ [34, 10] @
     [9] @ u ''TagLanguages   = '' @ [34] @ TagLanguages @ [34, 10] @
     [9] @ u ''TagWeb3        = '' @ [34] @ TagWeb3 @ [34, 10] @
     [9] @ u ''TagDatabase    = '' @ [34] @ TagDatabase @ [34, 10] @
     [9] @ u ''TagSecurity    = '' @ [34] @ TagSecurity @ [34, 10] @
     [9] @ u ''TagHardware    = '' @ [34] @ TagHardware @ [34, 10] @
     [9] @ u ''TagVehicle     = '' @ [34] @ TagVehicle @ [34, 10] @
     [9] @ u ''TagNetwork     = '' @ [34] @ TagNetwork @ [34, 10] @
     [9] @ u ''TagDevOps      = '' @ [34] @ TagDevOps @ [34, 10] @
     [9] @ u ''TagSystem      = '' @ [34] @ TagSystem @ [34, 10] @
     [9] @ u ''TagEnterprise  = '' @ [34] @ TagEnterprise @ [34, 10] @
     [9] @ u ''TagData        = '' @ [34] @ TagData @ [34, 10] @
     [9] @ u ''TagGaming      = '' @ [34] @ TagGaming @ [34, 10] @
     [9] @ u ''TagAgriculture = '' @ [34] @ TagAgriculture @ [34, 10] @
     [9] @ u ''TagHealthcare  = '' @ [34] @ TagHealthcare @ [34, 10] @
     [9] @ u ''TagKeynote     = '' @ [34] @ TagKeynote @ [34, 10] @
     [9] @ u ''TagPolicy      = '' @ [34] @ TagPolicy @ [34, 10] @
     [9] @ u ''TagGlobal      = '' @ [34] @ TagGlobal @ [34, 10] @
     [9] @ u ''TagOpenData    = '' @ [34] @ TagOpenData @ [34, 10] @
     [9] @ u ''TagEducation   = '' @ [34] @ TagEducation @ [34, 10] @
     [9] @ u ''TagSocial      = '' @ [34] @ TagSocial @ [34, 10] @
     [9] @ u ''TagSideProject = '' @ [34] @ TagSideProject @ [34, 10] @
     u '')'' @ [10] @
     [10] @
     u ''// AlignedCOSCUPData contains COSCUP 2025 session data aligned with existing tags'' @ [10] @
     u ''// Uses official pretalx API data with our existing tag classifications'' @ [10] @
     u ''var AlignedCOSCUPData = map[string]map[string][]Session{'' @ [10]"

text \<open>\<^verbatim>\<open>tag_map.get(tag, f'"{tag}"')\<close>: the constant of a label, or the label quoted.\<close>

definition tag_map :: "(ustr \<times> ustr) list" where
  "tag_map =
     [(TagAI, u ''TagAI''), (TagLanguages, u ''TagLanguages''), (TagWeb3, u ''TagWeb3''),
      (TagDatabase, u ''TagDatabase''), (TagSecurity, u ''TagSecurity''),
      (TagHardware, u ''TagHardware''), (TagVehicle, u ''TagVehicle''),
      (TagNetwork, u ''TagNetwork''), (TagDevOps, u ''TagDevOps''), (TagSystem, u ''TagSystem''),
      (TagEnterprise, u ''TagEnterprise''), (TagData, u ''TagData''), (TagGaming, u ''TagGaming''),
      (TagAgriculture, u ''TagAgriculture''), (TagHealthcare, u ''TagHealthcare''),
      (TagKeynote, u ''TagKeynote''), (TagPolicy, u ''TagPolicy''), (TagGlobal, u ''TagGlobal''),
      (TagOpenData, u ''TagOpenData''), (TagEducation, u ''TagEducation''),
      (TagSocial, u ''TagSocial''), (TagSideProject, u ''TagSideProject'')]"

definition tag_constant :: "ustr \<Rightarrow> ustr" where
  "tag_constant tag = (case map_of tag_map tag of None \<Rightarrow> [34] @ tag @ [34] | Some c \<Rightarrow> c)"

text \<open>
  The literal the generator appends for one session, given the tags chosen for it: the
  thirteen fields, with title, track and abstract escaped, the speakers quoted and the
  tags as constants.
\<close>

definition session_entry :: "session \<Rightarrow> ustr list \<Rightarrow> ustr" where
  "session_entry s tgs =
     (let speakers_str = join (u '', '') (map (\<lambda>sp. [34] @ sp @ [34]) (speakers s));
          tags_str = join (u '', '') (map tag_constant tgs)
      in [9, 9, 9] @ u ''{'' @ [10] @
         [9, 9, 9, 9] @ u ''Code:       '' @ [34] @ code s @ [34] @ u '','' @ [10] @
         [9, 9, 9, 9] @ u ''Title:      '' @ [34] @ escape_go (title s) @ [34] @ u '','' @ [10] @
         [9, 9, 9, 9] @ u ''Speakers:   []string{'' @ speakers_str @ u ''},'' @ [10] @
         [9, 9, 9, 9] @ u ''Start:      '' @ [34] @ start s @ [34] @ u '','' @ [10] @
         [9, 9, 9, 9] @ u ''End:        '' @ [34] @ end_time s @ [34] @ u '','' @ [10] @
         [9, 9, 9, 9] @ u ''Track:      '' @ [34] @ escape_go (track s) @ [34] @ u '','' @ [10] @
         [9, 9, 9, 9] @ u ''Abstract:   '' @ [34] @ escape_go (abstract s) @ [34] @ u '','' @ [10] @
         [9, 9, 9, 9] @ u ''Language:   '' @ [34] @ language s @ [34] @ u '','' @ [10] @
         [9, 9, 9, 9] @ u ''Difficulty: '' @ [34] @ difficulty s @ [34] @ u '','' @ [10] @
         [9, 9, 9, 9] @ u ''Room:       '' @ [34] @ room s @ [34] @ u '','' @ [10] @
         [9, 9, 9, 9] @ u ''Day:        '' @ [34] @ day s @ [34] @ u '','' @ [10] @
         [9, 9, 9, 9] @ u ''URL:        '' @ [34] @ url s @ [34] @ u '','' @ [10] @
         [9, 9, 9, 9] @ u ''Tags:       []string{'' @ tags_str @ u ''},'' @ [10] @
         [9, 9, 9] @ u ''},'' @ [10])"

record stats =
  total_sessions :: nat
  existing_tags_used :: nat
  new_tags_generated :: nat
  missing_sessions :: "ustr list"

text \<open>
  The body of \<^verbatim>\<open>for session in sessions\<close>, on the text generated so far and the
  statistics: the tags are the known table's when the code is a key of
  \<^verbatim>\<open>existing_tags\<close>, and otherwise those of \<^verbatim>\<open>generate_fallback_tags\<close>.
\<close>

definition align_session ::
    "(ustr \<Rightarrow> ustr) \<Rightarrow> (ustr \<rightharpoonup> ustr list) \<Rightarrow> session \<Rightarrow> ustr \<times> stats \<Rightarrow> ustr \<times> stats" where
  "align_session lower existing_tags s acc =
     (let go_code = fst acc;
          st = (snd acc)\<lparr>total_sessions := total_sessions (snd acc) + 1\<rparr>
      in case existing_tags (code s) of
           Some known \<Rightarrow>
             (go_code @ session_entry s known,
              st\<lparr>existing_tags_used := existing_tags_used st + 1\<rparr>)
         | None \<Rightarrow>
             (go_code @ session_entry s (generate_fallback_tags lower s),
              st\<lparr>new_tags_generated := new_tags_generated st + 1,
                 missing_sessions := missing_sessions st @ [code s]\<rparr>))"

text \<open>The body of \<^verbatim>\<open>for room in sorted(new_sessions_data[day].keys())\<close>.\<close>

definition align_room ::
    "(ustr \<Rightarrow> ustr) \<Rightarrow> (ustr \<rightharpoonup> ustr list) \<Rightarrow> rooms_of_day \<Rightarrow> ustr \<Rightarrow> ustr \<times> stats \<Rightarrow>
     ustr \<times> stats" where
  "align_room lower existing_tags rooms_of_day r acc =
     (let sessions = (case map_of rooms_of_day r of None \<Rightarrow> [] | Some b \<Rightarrow> b);
          opened = (fst acc @ [9, 9, 34] @ r @ [34] @ u '': {'' @ [10], snd acc);
          res = fold (align_session lower existing_tags) sessions opened
      in (fst res @ [9, 9] @ u ''},'' @ [10], snd res))"

text \<open>The body of \<^verbatim>\<open>for day in sorted(new_sessions_data.keys())\<close>.\<close>

definition align_day ::
    "(ustr \<Rightarrow> ustr) \<Rightarrow> (ustr \<rightharpoonup> ustr list) \<Rightarrow> sessions_by_day_room \<Rightarrow> ustr \<Rightarrow> ustr \<times> stats \<Rightarrow>
     ustr \<times> stats" where
  "align_day lower existing_tags new_sessions_data d acc =
     (let rooms_of_day = (case map_of new_sessions_data d of None \<Rightarrow> [] | Some rs \<Rightarrow> rs);
          opened = (fst acc @ [9, 34] @ d @ [34] @ u '': {'' @ [10], snd acc);
          res = fold (align_room lower existing_tags rooms_of_day) (sort (map fst rooms_of_day))
                  opened
      in (fst res @ [9] @ u ''},'' @ [10], snd res))"

text \<open>\<^verbatim>\<open>generate_aligned_go_data\<close>: the generated text and the statistics.\<close>

definition generate_aligned_go_data ::
    "(ustr \<Rightarrow> ustr) \<Rightarrow> sessions_by_day_room \<Rightarrow> (ustr \<rightharpoonup> ustr list) \<Rightarrow> ustr \<times> stats" where
  "generate_aligned_go_data lower new_sessions_data existing_tags =
     (let res = fold (align_day lower existing_tags new_sessions_data)
                  (sort (map fst new_sessions_data))
                  (go_header,
                   \<lparr>total_sessions = 0, existing_tags_used = 0, new_tags_generated = 0,
                    missing_sessions = []\<rparr>)
      in (fst res @ u ''}'' @ [10], snd res))"

text \<open>
  What the statistics say of the classifier: every code listed in \<^verbatim>\<open>missing_sessions\<close> is
  absent from the known table, and \<^verbatim>\<open>new_tags_generated\<close> counts exactly those codes.
\<close>

definition classified_only_unknown :: "(ustr \<rightharpoonup> ustr list) \<Rightarrow> stats \<Rightarrow> bool" where
  "classified_only_unknown existing_tags st \<longleftrightarrow>
     list_all (\<lambda>c. existing_tags c = None) (missing_sessions st) \<and>
     new_tags_generated st = length (missing_sessions st)"

section \<open>The classifier of the JSON-to-Go path (generate\_embedded\_data.py)\<close>

text \<open>
  The session dictionaries of the JSON file: \<^verbatim>\<open>generate_tags\<close> reads track, title and
  abstract with \<^verbatim>\<open>.get(key, '')\<close>, so each may be absent.
\<close>

record json_session =
  js_track :: "ustr option"
  js_title :: "ustr option"
  js_abstract :: "ustr option"

text \<open>
  The nineteen \<^verbatim>\<open>if ...: tags.append(...)\<close> statements of \<^verbatim>\<open>generate_tags\<close>, in the order
  of the source, on the lowercased track, title and abstract. The tags are the names of
  the Go constants. Keywords written as numbers are the CJK keywords of the source.
\<close>

definition generate_tags_rules :: "ustr \<Rightarrow> ustr \<Rightarrow> ustr \<Rightarrow> ustr list" where
  "generate_tags_rules trk ttl abstr =
     (if any_in [u ''ai'', u ''machine learning''] trk \<or>
         any_in [u ''ai'', u ''ml'', [27231, 22120, 23416, 32722], [20154, 24037, 26234, 24935],
                 u ''llm'', u ''agent''] ttl \<or>
         any_in [u ''ai'', u ''machine learning'', u ''neural'', u ''model''] abstr
      then [u ''TagAI''] else []) @
     (if any_in [u ''golang'', u ''python'', u ''ruby'', u ''kotlin'', u ''swift'', u ''jvm'',
                 u ''javascript''] trk \<or>
         any_in [u ''go'', u ''python'', u ''ruby'', u ''kotlin'', u ''swift'', u ''java'',
                 u ''js'', u ''programming''] ttl
      then [u ''TagLanguages''] else []) @
     (if any_in [u ''security'', u ''tor'', u ''hitcon''] trk \<or>
         any_in [u ''security'', u ''hack'', [38577, 31169], [23433, 20840], u ''attack'',
                 u ''privacy''] ttl
      then [u ''TagSecurity''] else []) @
     (if any_in [u ''blockchain'', u ''web3''] trk \<or>
         any_in [u ''blockchain'', u ''web3'', u ''crypto'', u ''defi'',
                 [21312, 22602, 37832]] ttl
      then [u ''TagWeb3''] else []) @
     (if any_in [u ''postgresql'', u ''database''] trk \<or>
         any_in [u ''database'', [36039, 26009, 24235], u ''sql'', u ''postgresql''] ttl
      then [u ''TagDatabase''] else []) @
     (if any_in [u ''hardware'', u ''firmware'', u ''system''] trk \<or>
         any_in [u ''hardware'', u ''firmware'', u ''risc-v'', u ''fpga'', u ''embedded''] ttl
      then [u ''TagHardware''] else []) @
     (if any_in [u ''vehicle'', u ''automotive''] trk \<or>
         any_in [u ''vehicle'', u ''automotive'', u ''sdv''] ttl
      then [u ''TagVehicle''] else []) @
     (if any_in [u ''network'', u ''networking''] trk \<or>
         any_in [u ''network'', [32178, 36335], u ''tcp'', u ''http'', u ''api''] ttl
      then [u ''TagNetwork''] else []) @
     (if any_in [u ''devops'', u ''cloud'', u ''monitoring''] trk \<or>
         any_in [u ''devops'', u ''docker'', u ''kubernetes'', u ''ci/cd'', u ''monitoring''] ttl
      then [u ''TagDevOps''] else []) @
     (if any_in [u ''system software''] trk \<or>
         any_in [u ''kernel'', u ''linux'', u ''system'', [31995, 32113]] ttl
      then [u ''TagSystem''] else []) @
     (if any_in [u ''enterprise'', u ''odoo'', u ''erp''] trk \<or>
         any_in [u ''enterprise'', u ''erp'', u ''business''] ttl
      then [u ''TagEnterprise''] else []) @
     (if any_in [u ''data'', [36039, 26009], u ''analytics'', u ''visualization'',
                 [20998, 26512]] ttl
      then [u ''TagData''] else []) @
     (if any_in [u ''policy'', u ''licensing''] trk \<or>
         any_in [u ''policy'', u ''license'', [25919, 31574], [25480, 27402], [38283, 28304],
                 u ''legal''] ttl
      then [u ''TagPolicy''] else []) @
     (if any_in [u ''japan'', u ''global'', u ''world tour'', u ''international''] trk \<or>
         any_in [u ''fosdem'', u ''japan'', [26085, 26412], u ''international'', u ''global''] ttl
      then [u ''TagGlobal''] else []) @
     (if any_in [u ''openstreet'', u ''wikidata'', u ''wikipedia''] trk \<or>
         any_in [u ''openstreet'', u ''wikidata'', u ''wikipedia'',
                 [38283, 25918, 36039, 26009]] ttl
      then [u ''TagOpenData''] else []) @
     (if any_in [[25945, 23416], [20837, 38272], u ''beginner'', u ''tutorial'', u ''education'',
                 [23416, 32722]] ttl
      then [u ''TagEducation''] else []) @
     (if any_in [u ''unconference''] trk \<or>
         any_in [u ''bof'', u ''hacking corner'', u ''social'', [20132, 27969]] ttl
      then [u ''TagSocial''] else []) @
     (if any_in [u ''side project''] trk \<or>
         any_in [u ''side project'', u ''indie'', u ''startup''] ttl
      then [u ''TagSideProject''] else []) @
     (if any_in [u ''main session''] trk \<or>
         any_in [u ''welcome'', u ''keynote'', u ''closing''] ttl
      then [u ''TagKeynote''] else [])"

text \<open>
  The tags collected before the cut: those of the rules, or \<^verbatim>\<open>TagSystem\<close> alone when no
  rule fired.
\<close>

definition generate_tags_collect :: "(ustr \<Rightarrow> ustr) \<Rightarrow> json_session \<Rightarrow> ustr list" where
  "generate_tags_collect lower s =
     (let trk = lower (case js_track s of None \<Rightarrow> [] | Some t \<Rightarrow> t);
          ttl = lower (case js_title s of None \<Rightarrow> [] | Some t \<Rightarrow> t);
          abstr = lower (case js_abstract s of None \<Rightarrow> [] | Some t \<Rightarrow> t);
          tgs = generate_tags_rules trk ttl abstr
      in if tgs = [] then [u ''TagSystem''] else tgs)"

text \<open>\<^verbatim>\<open>return tags[:2]  # Limit to 2 tags max\<close>\<close>

definition generate_tags :: "(ustr \<Rightarrow> ustr) \<Rightarrow> json_session \<Rightarrow> ustr list" where
  "generate_tags lower s = take 2 (generate_tags_collect lower s)"

section \<open>Sample inputs\<close>

text \<open>
  A session whose identifier contains \<^verbatim>\<open>keynote\<close> while its track, title and abstract
  hold no keyword at all, and one whose title is \<^verbatim>\<open>Opening\<close> under a plain identifier.
\<close>

definition keynote_coded :: session where
  "keynote_coded = \<lparr>code = u ''keynote1'', title = u ''Welcome'', speakers = [],
     start = u ''09:00'', end_time = u ''09:30'', track = u ''General'', abstract = [],
     language = [], difficulty = [], room = u ''RB105'', day = u ''Aug.9'', tags = [],
     url = []\<rparr>"

definition opening_titled :: session where
  "opening_titled = \<lparr>code = u ''ABC123'', title = u ''Opening'', speakers = [],
     start = u ''09:00'', end_time = u ''09:30'', track = u ''General'', abstract = [],
     language = [], difficulty = [], room = u ''RB105'', day = u ''Aug.9'', tags = [],
     url = []\<rparr>"

text \<open>
  A stand-in for \<^verbatim>\<open>datetime.fromisoformat\<close> in the evaluations: Python's values at the
  four strings the sample slots carry. No other string is asked of it below.
\<close>

definition fromisoformat_sample :: "ustr \<Rightarrow> datetime option" where
  "fromisoformat_sample s =
     (if s = u ''2025-08-09T10:00:00+08:00''
      then Some \<lparr>dt_year = 2025, dt_month = 8, dt_day = 9, dt_hour = 10, dt_minute = 0,
                  dt_second = 0\<rparr>
      else if s = u ''2025-08-09T10:30:00+08:00''
      then Some \<lparr>dt_year = 2025, dt_month = 8, dt_day = 9, dt_hour = 10, dt_minute = 30,
                  dt_second = 0\<rparr>
      else if s = u ''2025-08-09T09:30:00+08:00''
      then Some \<lparr>dt_year = 2025, dt_month = 8, dt_day = 9, dt_hour = 9, dt_minute = 30,
                  dt_second = 0\<rparr>
      else if s = u ''2025-08-10T09:05:00+08:00''
      then Some \<lparr>dt_year = 2025, dt_month = 8, dt_day = 10, dt_hour = 9, dt_minute = 5,
                  dt_second = 0\<rparr>
      else None)"

definition complete_slot :: slot where
  "complete_slot = \<lparr>slot_start = Some (u ''2025-08-09T10:00:00+08:00''),
                     slot_end = Some (u ''2025-08-09T10:30:00+08:00''),
                     slot_room = Some 7\<rparr>"

definition other_slot :: slot where
  "other_slot = \<lparr>slot_start = Some (u ''2025-08-10T09:05:00+08:00''),
                  slot_end = Some (u ''2025-08-10T09:05:00+08:00''),
                  slot_room = Some 8\<rparr>"

definition roomless_slot :: slot where
  "roomless_slot = \<lparr>slot_start = Some (u ''2025-08-09T10:00:00+08:00''),
                     slot_end = Some (u ''2025-08-09T10:30:00+08:00''),
                     slot_room = None\<rparr>"

text \<open>
  A submission with one complete slot, no track, the difficulty answer \<^verbatim>\<open>Beginner\<close>
  and a language answer outside the table; the session it normalizes to; and the same
  submission with an abstract of 201 letters.
\<close>

definition sample_submission :: submission where
  "sample_submission =
     \<lparr>sub_code = u ''JPADKC'', sub_title = u ''Rust for Linux'',
      sub_speakers = Some [u ''SPK1'', u ''SPK2''], sub_track = None,
      sub_abstract = Some (u ''Memory safety in the kernel''),
      sub_slots = Some [complete_slot],
      sub_answers = Some [\<lparr>answer_question = Some 59, answer_answer = Some (u ''Beginner'')\<rparr>,
                          \<lparr>answer_question = Some 57, answer_answer = Some (u ''Klingon'')\<rparr>]\<rparr>"

definition long_submission :: submission where
  "long_submission = sample_submission\<lparr>sub_abstract := Some (replicate 201 97)\<rparr>"

definition sample_speakers :: "ustr \<rightharpoonup> speaker" where
  "sample_speakers = [u ''SPK1'' \<mapsto> \<lparr>speaker_name = Some (u ''Ada'')\<rparr>]"

definition sample_rooms :: "int \<rightharpoonup> named" where
  "sample_rooms = [7 \<mapsto> \<lparr>name = Some [u ''zh-tw'' \<mapsto> u ''RB105'']\<rparr>]"

definition sample_session :: session where
  "sample_session =
     \<lparr>code = u ''JPADKC'', title = u ''Rust for Linux'', speakers = [u ''Ada'', u ''SPK2''],
      start = u ''10:00'', end_time = u ''10:30'', track = u ''General'',
      abstract = u ''Memory safety in the kernel'', language = u ''Klingon'',
      difficulty = [20837, 38272], room = u ''RB105'', day = u ''Aug.9'',
      tags = [TagLanguages, TagSystem],
      url = u ''https://coscup.org/2025/sessions/JPADKC''\<rparr>"

definition long_session :: session where
  "long_session = sample_session
     \<lparr>abstract := replicate 200 97 @ u ''...'',
      tags := classify_session_tags ascii_lower (u ''General'') (u ''Rust for Linux'')
                (replicate 201 97)\<rparr>"

text \<open>
  A batch of four submissions: one at 10:00, one at 09:30, one without a room, and a
  second one at 10:00, all on the same day and (but for the third) in the same room.
\<close>

definition early_slot :: slot where
  "early_slot = \<lparr>slot_start = Some (u ''2025-08-09T09:30:00+08:00''),
                  slot_end = Some (u ''2025-08-09T10:00:00+08:00''),
                  slot_room = Some 7\<rparr>"

definition sample_batch :: "submission list" where
  "sample_batch =
     [sample_submission,
      sample_submission\<lparr>sub_code := u ''EARLY1'', sub_slots := Some [early_slot]\<rparr>,
      sample_submission\<lparr>sub_code := u ''NOROOM'', sub_slots := Some [roomless_slot]\<rparr>,
      sample_submission\<lparr>sub_code := u ''TIE002''\<rparr>]"

definition sample_aggregate :: sessions_by_day_room where
  "sample_aggregate =
     [(u ''Aug.9'',
       [(u ''RB105'',
         [sample_session\<lparr>code := u ''EARLY1'', start := u ''09:30'', end_time := u ''10:00'',
                          url := u ''https://coscup.org/2025/sessions/EARLY1''\<rparr>,
          sample_session,
          sample_session\<lparr>code := u ''TIE002'',
                          url := u ''https://coscup.org/2025/sessions/TIE002''\<rparr>])])]"

text \<open>
  A table of known tags with one entry: the first sample session, with tags its own text
  would not give it.
\<close>

definition sample_existing_tags :: "ustr \<rightharpoonup> ustr list" where
  "sample_existing_tags = [u ''JPADKC'' \<mapsto> [TagAI, TagKeynote]]"

text \<open>
  A session on which three rules of either classifier fire, and a title on which all
  twelve rules of the pretalx classifier fire.
\<close>

definition three_topics :: json_session where
  "three_topics = \<lparr>js_track = Some (u ''AI''), js_title = Some (u ''Go security''),
                    js_abstract = None\<rparr>"

definition twelve_topics :: ustr where
  "twelve_topics = u ''ai secure go sql cloud iot nft api linux student policy chat''"

text \<open>
  The sample submission with a difficulty answer padded with blanks and a language
  answer that is blank, and the session it normalizes to.
\<close>

definition padded_submission :: submission where
  "padded_submission = sample_submission
     \<lparr>sub_answers :=
        Some [\<lparr>answer_question = Some 59, answer_answer = Some (u '' Expert '')\<rparr>,
              \<lparr>answer_question = Some 57, answer_answer = Some (u ''   '')\<rparr>]\<rparr>"

definition padded_session :: session where
  "padded_session = sample_session\<lparr>language := [28450, 35486], difficulty := u ''Expert''\<rparr>"

section \<open>Substrings\<close>

lemma py_in_sublist: "py_in keyword t = sublist keyword t"
proof (induction t)
  case Nil
  show ?case by (cases keyword) simp_all
next
  case (Cons c cs)
  show ?case
  proof (cases keyword)
    case Nil
    then show ?thesis by simp
  next
    case (Cons k ks)
    with Cons.IH show ?thesis by (simp add: sublist_Cons_right)
  qed
qed

section \<open>Properties of the classifiers: firing rules and the default\<close>

lemma firing_tags_Nil: "firing_tags [] t = []"
  by (simp add: firing_tags_def)

lemma firing_tags_Cons:
  "firing_tags ((tag, kws) # rs) t = (if any_in kws t then [tag] else []) @ firing_tags rs t"
  by (simp add: firing_tags_def fires_def any_in_def py_in_sublist)

lemma classify_collect_firing: "classify_collect t = firing_tags classify_rules t"
  unfolding classify_collect_def classify_rules_def
  by (simp only: firing_tags_Cons firing_tags_Nil append_Nil2)

lemma fires_iff:
  "fires t r \<longleftrightarrow> (\<exists>keyword \<in> set (snd r). \<exists>ps ss. t = ps @ keyword @ ss)"
  by (simp add: fires_def list_ex_iff sublist_def)

text \<open>
  C2 (as amended). Both classifiers always return at least one tag. When no keyword rule
  fires, \<^verbatim>\<open>classify_session_tags\<close> and \<^verbatim>\<open>generate_fallback_tags\<close> return the single tag
  Keynote if the lowercased track/title/abstract text contains \<^verbatim>\<open>keynote\<close> or
  \<^verbatim>\<open>opening\<close>, and the single tag System otherwise. The test reads the text, never the
  session's identifier.
\<close>

theorem tags_never_empty:
  "classify_session_tags lower tr ti ab \<noteq> [] \<and>
   generate_fallback_tags lower s \<noteq> [] \<and>
   (classify_collect (classify_text lower tr ti ab) = [] \<longrightarrow>
      classify_session_tags lower tr ti ab =
        (if sublist (u ''keynote'') (classify_text lower tr ti ab) \<or>
            sublist (u ''opening'') (classify_text lower tr ti ab)
         then [TagKeynote] else [TagSystem])) \<and>
   (fallback_collect (fallback_text lower s) = [] \<longrightarrow>
      generate_fallback_tags lower s =
        (if sublist (u ''keynote'') (fallback_text lower s) \<or>
            sublist (u ''opening'') (fallback_text lower s)
         then [TagKeynote] else [TagSystem]))"
  by (simp add: classify_session_tags_def generate_fallback_tags_def Let_def py_in_sublist)

theorem tags_never_empty_witness:
  "classify_collect (classify_text ascii_lower [] (u ''Opening'') []) = [] \<and>
   classify_session_tags ascii_lower [] (u ''Opening'') [] = [TagKeynote] \<and>
   fallback_collect (fallback_text ascii_lower keynote_coded) = [] \<and>
   generate_fallback_tags ascii_lower keynote_coded = [TagSystem]"
proof -
  have c: "classify_collect (classify_text ascii_lower [] (u ''Opening'') []) = []"
    by code_simp
  have f: "fallback_collect (fallback_text ascii_lower keynote_coded) = []"
    by code_simp
  have o: "py_in (u ''opening'') (classify_text ascii_lower [] (u ''Opening'') [])"
    by code_simp
  have k: "\<not> py_in (u ''keynote'') (fallback_text ascii_lower keynote_coded)"
    by code_simp
  have p: "\<not> py_in (u ''opening'') (fallback_text ascii_lower keynote_coded)"
    by code_simp
  from tags_never_empty [of ascii_lower "[]" "u ''Opening''" "[]" keynote_coded] c f o k p
  show ?thesis by (simp add: py_in_sublist)
qed

text \<open>
  C2 as it is written fails: the default does not look at the identifier. A session whose
  identifier contains \<^verbatim>\<open>keynote\<close> and whose text fires no rule gets System, and a session
  with a plain identifier whose title is \<^verbatim>\<open>Opening\<close> gets Keynote.
\<close>

theorem default_ignores_identifier:
  "py_in (u ''keynote'') (ascii_lower (code keynote_coded)) \<and>
   fallback_collect (fallback_text ascii_lower keynote_coded) = [] \<and>
   generate_fallback_tags ascii_lower keynote_coded = [TagSystem] \<and>
   TagSystem \<noteq> TagKeynote \<and>
   \<not> py_in (u ''keynote'') (ascii_lower (code opening_titled)) \<and>
   \<not> py_in (u ''opening'') (ascii_lower (code opening_titled)) \<and>
   fallback_collect (fallback_text ascii_lower opening_titled) = [] \<and>
   generate_fallback_tags ascii_lower opening_titled = [TagKeynote]"
  by code_simp

text \<open>
  C5 (as amended). A rule of the table fires on a text exactly when one of its keywords
  is a substring of the concatenated, lowercased track, title and abstract. Whenever at
  least one rule fires, \<^verbatim>\<open>classify_session_tags\<close> returns precisely the tags of the firing
  rules, in the order the rules are declared; when none fires it returns the one default
  tag instead. The text \<^verbatim>\<open>COSCUP Security Track: Practical Attack Techniques\<close> yields
  Security and not Keynote.
\<close>

theorem classify_returns_firing_tags:
  "(\<forall>r. fires (classify_text lower tr ti ab) r \<longleftrightarrow>
      (\<exists>keyword \<in> set (snd r). \<exists>ps ss.
          lower (tr @ u '' '' @ ti @ u '' '' @ ab) = ps @ keyword @ ss)) \<and>
   (firing_tags classify_rules (classify_text lower tr ti ab) \<noteq> [] \<longrightarrow>
      classify_session_tags lower tr ti ab =
        firing_tags classify_rules (classify_text lower tr ti ab)) \<and>
   (firing_tags classify_rules (classify_text lower tr ti ab) = [] \<longrightarrow>
      classify_session_tags lower tr ti ab = [TagKeynote] \<or>
      classify_session_tags lower tr ti ab = [TagSystem]) \<and>
   classify_session_tags ascii_lower []
      (u ''COSCUP Security Track: Practical Attack Techniques'') [] = [TagSecurity] \<and>
   TagSecurity \<noteq> TagKeynote"
proof -
  have "classify_session_tags ascii_lower []
      (u ''COSCUP Security Track: Practical Attack Techniques'') [] = [TagSecurity]"
    by code_simp
  moreover have "TagSecurity \<noteq> TagKeynote"
    by code_simp
  moreover have "\<forall>r. fires (classify_text lower tr ti ab) r \<longleftrightarrow>
      (\<exists>keyword \<in> set (snd r). \<exists>ps ss.
          lower (tr @ u '' '' @ ti @ u '' '' @ ab) = ps @ keyword @ ss)"
    by (simp add: fires_iff classify_text_def)
  ultimately show ?thesis
    by (simp add: classify_session_tags_def Let_def classify_collect_firing)
qed

theorem classify_returns_firing_tags_witness:
  "firing_tags classify_rules (classify_text ascii_lower (u ''AI'') (u ''Go and Rust'') [])
     = [TagAI, TagLanguages] \<and>
   classify_session_tags ascii_lower (u ''AI'') (u ''Go and Rust'') [] = [TagAI, TagLanguages]"
proof -
  have f: "firing_tags classify_rules (classify_text ascii_lower (u ''AI'') (u ''Go and Rust'') [])
     = [TagAI, TagLanguages]"
    by code_simp
  from classify_returns_firing_tags [of ascii_lower "u ''AI''" "u ''Go and Rust''" "[]"] f
  show ?thesis by simp
qed

text \<open>
  C5 as it is written fails where no rule fires: on the empty track, title and abstract
  the list of firing tags is empty, and the classifier returns System all the same.
\<close>

theorem no_rule_fires_yet_tagged:
  "firing_tags classify_rules (classify_text ascii_lower [] [] []) = [] \<and>
   classify_session_tags ascii_lower [] [] [] = [TagSystem]"
  by code_simp

section \<open>Properties of the Normalizer\<close>

lemma process_session_skip:
  assumes "sub_slots sub = None \<or> sub_slots sub = Some [] \<or>
     (\<exists>sl later. sub_slots sub = Some (sl # later) \<and>
        (\<not> truthy (slot_start sl) \<or> \<not> truthy (slot_end sl) \<or>
         slot_room sl = None \<or> slot_room sl = Some 0))"
  shows "process_session lower fromiso sub sp rm tr = Inr None"
  using assms by (auto simp: process_session_def)

lemma process_session_Some:
  assumes "process_session lower fromiso sub sp rm tr = Inr (Some s)"
  obtains sl later room_id st en dy where
    "sub_slots sub = Some (sl # later)" "truthy (slot_start sl)" "truthy (slot_end sl)"
    "slot_room sl = Some room_id" "room_id \<noteq> 0"
    "parse_slot_time fromiso sl = Inr (st, en, dy)"
    "s = \<lparr>code = sub_code sub, title = sub_title sub,
          speakers = speaker_names sp (case sub_speakers sub of None \<Rightarrow> [] | Some cs \<Rightarrow> cs),
          start = st, end_time = en,
          track = resolve_track_name tr (sub_track sub),
          abstract = truncate_abstract (case sub_abstract sub of None \<Rightarrow> [] | Some a \<Rightarrow> a),
          language = get_or_self language_map (language_value sub),
          difficulty = get_or_self difficulty_map (difficulty_value sub),
          room = resolve_room_name rm room_id, day = dy,
          tags = classify_session_tags lower (resolve_track_name tr (sub_track sub))
                   (sub_title sub) (case sub_abstract sub of None \<Rightarrow> [] | Some a \<Rightarrow> a),
          url = u ''https://coscup.org/2025/sessions/'' @ sub_code sub\<rparr>"
  using assms
  by (auto simp: process_session_def Let_def split: option.splits list.splits if_splits sum.splits)

lemma process_session_accept:
  assumes "sub_slots sub = Some (sl # later)" "truthy (slot_start sl)" "truthy (slot_end sl)"
    "slot_room sl = Some room_id" "room_id \<noteq> 0"
    "parse_slot_time fromiso sl = Inr (st, en, dy)"
  shows "process_session lower fromiso sub sp rm tr =
    Inr (Some \<lparr>code = sub_code sub, title = sub_title sub,
          speakers = speaker_names sp (case sub_speakers sub of None \<Rightarrow> [] | Some cs \<Rightarrow> cs),
          start = st, end_time = en,
          track = resolve_track_name tr (sub_track sub),
          abstract = truncate_abstract (case sub_abstract sub of None \<Rightarrow> [] | Some a \<Rightarrow> a),
          language = get_or_self language_map (language_value sub),
          difficulty = get_or_self difficulty_map (difficulty_value sub),
          room = resolve_room_name rm room_id, day = dy,
          tags = classify_session_tags lower (resolve_track_name tr (sub_track sub))
                   (sub_title sub) (case sub_abstract sub of None \<Rightarrow> [] | Some a \<Rightarrow> a),
          url = u ''https://coscup.org/2025/sessions/'' @ sub_code sub\<rparr>)"
  using assms by (simp add: process_session_def Let_def)

lemma long_run:
  "process_session ascii_lower fromisoformat_sample long_submission sample_speakers
     sample_rooms Map.empty = Inr (Some long_session)"
proof -
  have p: "parse_slot_time fromisoformat_sample complete_slot =
      Inr (u ''10:00'', u ''10:30'', u ''Aug.9'')"
    by code_simp
  have sl: "sub_slots long_submission = Some [complete_slot]"
    "truthy (slot_start complete_slot)" "truthy (slot_end complete_slot)"
    "slot_room complete_slot = Some 7"
    by (simp_all add: long_submission_def sample_submission_def complete_slot_def u_def)
  have f: "sub_code long_submission = u ''JPADKC''" "sub_title long_submission = u ''Rust for Linux''"
    "sub_abstract long_submission = Some (replicate 201 97)" "sub_track long_submission = None"
    "sub_speakers long_submission = Some [u ''SPK1'', u ''SPK2'']"
    by (simp_all add: long_submission_def sample_submission_def)
  have e: "speaker_names sample_speakers [u ''SPK1'', u ''SPK2''] = [u ''Ada'', u ''SPK2'']"
    "resolve_track_name Map.empty None = u ''General''"
    "resolve_room_name sample_rooms 7 = u ''RB105''"
    "get_or_self language_map (language_value long_submission) = u ''Klingon''"
    "get_or_self difficulty_map (difficulty_value long_submission) = [20837, 38272]"
    "truncate_abstract (replicate 201 97) = replicate 200 97 @ u ''...''"
    "u ''https://coscup.org/2025/sessions/'' @ u ''JPADKC'' =
       u ''https://coscup.org/2025/sessions/JPADKC''"
    by code_simp+
  have "(7::int) \<noteq> 0"
    by simp
  from process_session_accept [OF sl this p, of ascii_lower sample_speakers sample_rooms Map.empty]
  show ?thesis
    by (simp add: f e long_session_def sample_session_def)
qed

lemma sample_run:
  "process_session ascii_lower fromisoformat_sample sample_submission sample_speakers
     sample_rooms Map.empty = Inr (Some sample_session)"
  by code_simp

lemma u_eq_iff: "u a = u b \<longleftrightarrow> a = b"
proof -
  have "inj (of_char :: char \<Rightarrow> nat)"
    by (simp add: inj_on_def)
  then show ?thesis
    by (simp add: u_def inj_map_eq_map)
qed

lemma or_else_nonempty: "d \<noteq> [] \<Longrightarrow> or_else a d \<noteq> []"
  by (auto simp: or_else_def split: option.splits list.splits)

lemma or_else_py_or:
  "or_else (py_or a b) d =
     (case a of Some (c # cs) \<Rightarrow> c # cs
      | _ \<Rightarrow> (case b of Some (c # cs) \<Rightarrow> c # cs | _ \<Rightarrow> d))"
  by (auto simp: or_else_def py_or_def split: option.splits list.splits)

text \<open>
  C4. A record with no slot list (absent or empty), or whose slot lacks a start, an end or
  a room, is skipped: \<^verbatim>\<open>process_session\<close> returns \<^verbatim>\<open>None\<close>, which is a value and no
  exception. The slot is the first of the list, the one the Normalizer reads.
\<close>

theorem skip_on_missing_slot_or_room:
  assumes "sub_slots sub = None \<or> sub_slots sub = Some [] \<or>
     (\<exists>sl later. sub_slots sub = Some (sl # later) \<and>
        (slot_start sl = None \<or> slot_end sl = None \<or> slot_room sl = None))"
  shows "process_session lower fromiso sub sp rm tr = Inr None"
proof (rule process_session_skip)
  from assms show "sub_slots sub = None \<or> sub_slots sub = Some [] \<or>
     (\<exists>sl later. sub_slots sub = Some (sl # later) \<and>
        (\<not> truthy (slot_start sl) \<or> \<not> truthy (slot_end sl) \<or>
         slot_room sl = None \<or> slot_room sl = Some 0))"
    by auto
qed

theorem skip_on_missing_slot_or_room_witness:
  "sub_slots (sample_submission\<lparr>sub_slots := None\<rparr>) = None \<and>
   process_session ascii_lower fromisoformat_sample (sample_submission\<lparr>sub_slots := None\<rparr>)
     sample_speakers sample_rooms Map.empty = Inr None \<and>
   sub_slots (sample_submission\<lparr>sub_slots := Some [roomless_slot]\<rparr>) = Some [roomless_slot] \<and>
   slot_room roomless_slot = None \<and>
   process_session ascii_lower fromisoformat_sample
     (sample_submission\<lparr>sub_slots := Some [roomless_slot]\<rparr>)
     sample_speakers sample_rooms Map.empty = Inr None"
proof -
  have r: "slot_room roomless_slot = None"
    by (simp add: roomless_slot_def)
  have a: "process_session ascii_lower fromisoformat_sample
      (sample_submission\<lparr>sub_slots := None\<rparr>) sample_speakers sample_rooms Map.empty = Inr None"
    by (rule skip_on_missing_slot_or_room) simp
  have b: "process_session ascii_lower fromisoformat_sample
      (sample_submission\<lparr>sub_slots := Some [roomless_slot]\<rparr>)
      sample_speakers sample_rooms Map.empty = Inr None"
    by (rule skip_on_missing_slot_or_room) (simp add: r)
  from r a b show ?thesis by simp
qed

lemma get_answer_value_find:
  "get_answer_value answers question_id =
     map_option (\<lambda>a. strip (case answer_answer a of None \<Rightarrow> [] | Some v \<Rightarrow> v))
       (find (\<lambda>a. answer_question a = Some question_id) answers)"
  by (induction answers) simp_all

lemma or_else_if: "or_else (Some w) d = (if w = [] then d else w)"
  by (cases w) (simp_all add: or_else_def)

lemma or_else_None: "or_else None d = d"
  by (simp add: or_else_def)

lemma strip_shape:
  "\<exists>l r. v = l @ strip v @ r \<and> list_all isspace l \<and> list_all isspace r \<and>
     (strip v \<noteq> [] \<longrightarrow> \<not> isspace (hd (strip v)) \<and> \<not> isspace (last (strip v)))"
proof -
  define t where "t = dropWhile isspace v"
  define w where "w = dropWhile isspace (rev t)"
  have s: "strip v = rev w"
    by (simp add: strip_def t_def w_def)
  have v: "v = takeWhile isspace v @ t"
    by (simp add: t_def)
  have "rev t = takeWhile isspace (rev t) @ w"
    by (simp add: w_def)
  then have "rev (rev t) = rev (takeWhile isspace (rev t) @ w)"
    by simp
  then have t: "t = rev w @ rev (takeWhile isspace (rev t))"
    by simp
  have l: "list_all isspace (takeWhile isspace v)"
    by (simp add: list_all_iff) (meson set_takeWhileD)
  have r: "list_all isspace (rev (takeWhile isspace (rev t)))"
    by (simp add: list_all_iff) (meson set_takeWhileD)
  have e: "\<not> isspace (hd (rev w)) \<and> \<not> isspace (last (rev w))" if "rev w \<noteq> []"
  proof -
    from that have w: "w \<noteq> []" by simp
    then have "\<not> isspace (hd w)"
      unfolding w_def by (rule hd_dropWhile)
    then have la: "\<not> isspace (last (rev w))"
      using w by (simp add: last_rev)
    from that t have "t \<noteq> []" by auto
    then have "\<not> isspace (hd t)"
      unfolding t_def by (rule hd_dropWhile)
    moreover from t that have "hd t = hd (rev w)"
      by (metis hd_append2)
    ultimately show ?thesis using la by simp
  qed
  have "v = takeWhile isspace v @ strip v @ rev (takeWhile isspace (rev t))"
    using v t s by simp
  with l r e s show ?thesis
    by (intro exI [where x = "takeWhile isspace v"]
          exI [where x = "rev (takeWhile isspace (rev t))"]) simp
qed

lemma padded_run:
  "process_session ascii_lower fromisoformat_sample padded_submission sample_speakers
     sample_rooms Map.empty = Inr (Some padded_session)"
  by code_simp

text \<open>
  C7 (as amended). The difficulty value of a record is its first answer to question 59
  with the white space at both ends removed, and the default word (20837 38272) when
  there is no such answer or nothing is left of it; the language value is the same for
  question 57, with the default word 28450 35486. In every session the Normalizer emits,
  difficulty and language are these values sent through the fixed tables: Beginner,
  Intermediate and Advanced become the three difficulty words, Chinese, English and
  Japanese the three language words, and a value outside the table is emitted as it is.
  The answers of a record never decide whether the Normalizer fails. A record whose
  difficulty answer is \<^verbatim>\<open>Beginner\<close> gets the word for Beginner.
\<close>

theorem vocabulary_tables_after_strip:
  "(process_session lower fromiso sub sp rm tr = Inr (Some s) \<longrightarrow>
      difficulty s =
        (if difficulty_value sub = u ''Beginner'' then [20837, 38272]
         else if difficulty_value sub = u ''Intermediate'' then [20013, 38542]
         else if difficulty_value sub = u ''Advanced'' then [36914, 38542]
         else difficulty_value sub) \<and>
      language s =
        (if language_value sub = u ''Chinese'' then [28450, 35486]
         else if language_value sub = u ''English'' then [33521, 35486]
         else if language_value sub = u ''Japanese'' then [26085, 26412, 35486]
         else language_value sub) \<and>
      (\<forall>more. sub_answers sub =
           Some (\<lparr>answer_question = Some 59, answer_answer = Some (u ''Beginner'')\<rparr> # more) \<longrightarrow>
         difficulty s = [20837, 38272])) \<and>
   difficulty_value sub =
     (case find (\<lambda>a. answer_question a = Some 59)
             (case sub_answers sub of None \<Rightarrow> [] | Some a \<Rightarrow> a) of
        None \<Rightarrow> [20837, 38272]
      | Some a \<Rightarrow>
          if strip (case answer_answer a of None \<Rightarrow> [] | Some v \<Rightarrow> v) = [] then [20837, 38272]
          else strip (case answer_answer a of None \<Rightarrow> [] | Some v \<Rightarrow> v)) \<and>
   language_value sub =
     (case find (\<lambda>a. answer_question a = Some 57)
             (case sub_answers sub of None \<Rightarrow> [] | Some a \<Rightarrow> a) of
        None \<Rightarrow> [28450, 35486]
      | Some a \<Rightarrow>
          if strip (case answer_answer a of None \<Rightarrow> [] | Some v \<Rightarrow> v) = [] then [28450, 35486]
          else strip (case answer_answer a of None \<Rightarrow> [] | Some v \<Rightarrow> v)) \<and>
   (\<exists>l r. v = l @ strip v @ r \<and> list_all isspace l \<and> list_all isspace r \<and>
      (strip v \<noteq> [] \<longrightarrow> \<not> isspace (hd (strip v)) \<and> \<not> isspace (last (strip v)))) \<and>
   isl (process_session lower fromiso (sub\<lparr>sub_answers := answers\<rparr>) sp rm tr) =
   isl (process_session lower fromiso sub sp rm tr)"
proof -
  have dv: "difficulty_value sub =
     (case find (\<lambda>a. answer_question a = Some 59)
             (case sub_answers sub of None \<Rightarrow> [] | Some a \<Rightarrow> a) of
        None \<Rightarrow> [20837, 38272]
      | Some a \<Rightarrow>
          if strip (case answer_answer a of None \<Rightarrow> [] | Some v \<Rightarrow> v) = [] then [20837, 38272]
          else strip (case answer_answer a of None \<Rightarrow> [] | Some v \<Rightarrow> v))"
    by (simp add: difficulty_value_def get_answer_value_find or_else_if or_else_None
          split: option.splits)
  have lv: "language_value sub =
     (case find (\<lambda>a. answer_question a = Some 57)
             (case sub_answers sub of None \<Rightarrow> [] | Some a \<Rightarrow> a) of
        None \<Rightarrow> [28450, 35486]
      | Some a \<Rightarrow>
          if strip (case answer_answer a of None \<Rightarrow> [] | Some v \<Rightarrow> v) = [] then [28450, 35486]
          else strip (case answer_answer a of None \<Rightarrow> [] | Some v \<Rightarrow> v))"
    by (simp add: language_value_def get_answer_value_find or_else_if or_else_None
          split: option.splits)
  have sb: "strip (u ''Beginner'') = u ''Beginner''"
    by code_simp
  have bn: "u ''Beginner'' \<noteq> []"
    by (simp add: u_def)
  have beginner: "difficulty_value sub = u ''Beginner''"
    if "sub_answers sub =
          Some (\<lparr>answer_question = Some 59, answer_answer = Some (u ''Beginner'')\<rparr> # more)"
    for more
    using that sb bn by (simp add: dv)
  have dm: "get_or_self difficulty_map w =
      (if w = u ''Beginner'' then [20837, 38272]
       else if w = u ''Intermediate'' then [20013, 38542]
       else if w = u ''Advanced'' then [36914, 38542] else w)" for w
    by (simp add: get_or_self_def difficulty_map_def)
  have lm: "get_or_self language_map w =
      (if w = u ''Chinese'' then [28450, 35486]
       else if w = u ''English'' then [33521, 35486]
       else if w = u ''Japanese'' then [26085, 26412, 35486] else w)" for w
    by (simp add: get_or_self_def language_map_def)
  have tables: "difficulty s = get_or_self difficulty_map (difficulty_value sub) \<and>
      language s = get_or_self language_map (language_value sub)"
    if "process_session lower fromiso sub sp rm tr = Inr (Some s)"
    using that by (elim process_session_Some) simp
  have main: "difficulty s =
        (if difficulty_value sub = u ''Beginner'' then [20837, 38272]
         else if difficulty_value sub = u ''Intermediate'' then [20013, 38542]
         else if difficulty_value sub = u ''Advanced'' then [36914, 38542]
         else difficulty_value sub) \<and>
      language s =
        (if language_value sub = u ''Chinese'' then [28450, 35486]
         else if language_value sub = u ''English'' then [33521, 35486]
         else if language_value sub = u ''Japanese'' then [26085, 26412, 35486]
         else language_value sub) \<and>
      (\<forall>more. sub_answers sub =
           Some (\<lparr>answer_question = Some 59, answer_answer = Some (u ''Beginner'')\<rparr> # more) \<longrightarrow>
         difficulty s = [20837, 38272])"
    if "process_session lower fromiso sub sp rm tr = Inr (Some s)"
    using tables [OF that] beginner by (simp add: dm lm)
  have errs: "isl (process_session lower fromiso (sub\<lparr>sub_answers := answers\<rparr>) sp rm tr) =
      isl (process_session lower fromiso sub sp rm tr)"
    by (simp add: process_session_def Let_def
          split: option.splits list.splits sum.splits prod.splits)
  from main dv lv strip_shape [of v] errs show ?thesis
    by blast
qed

theorem vocabulary_tables_after_strip_witness:
  "process_session ascii_lower fromisoformat_sample sample_submission sample_speakers
     sample_rooms Map.empty = Inr (Some sample_session) \<and>
   difficulty_value sample_submission = u ''Beginner'' \<and>
   difficulty sample_session = [20837, 38272] \<and>
   language_value sample_submission = u ''Klingon'' \<and>
   language sample_session = u ''Klingon''"
proof -
  have d: "difficulty_value sample_submission = u ''Beginner''"
    by code_simp
  have l: "language_value sample_submission = u ''Klingon''"
    by code_simp
  from vocabulary_tables_after_strip [where lower = ascii_lower and fromiso = fromisoformat_sample
      and sub = sample_submission and sp = sample_speakers and rm = sample_rooms
      and tr = Map.empty and s = sample_session, THEN conjunct1] sample_run d l
  show ?thesis by (simp add: u_eq_iff)
qed

text \<open>
  C7 as it is written fails: a value outside the table is not always emitted as the
  record has it. The difficulty answer \<^verbatim>\<open>Expert\<close> with a blank on either side is emitted
  without the blanks, and a language answer of three blanks is emitted as the default
  word.
\<close>

theorem padded_answer_not_verbatim:
  "sub_answers padded_submission =
     Some [\<lparr>answer_question = Some 59, answer_answer = Some (u '' Expert '')\<rparr>,
           \<lparr>answer_question = Some 57, answer_answer = Some (u ''   '')\<rparr>] \<and>
   difficulty_map (u '' Expert '') = None \<and> language_map (u ''   '') = None \<and>
   process_session ascii_lower fromisoformat_sample padded_submission sample_speakers
     sample_rooms Map.empty = Inr (Some padded_session) \<and>
   difficulty padded_session = u ''Expert'' \<and> u ''Expert'' \<noteq> u '' Expert '' \<and>
   language padded_session = [28450, 35486] \<and> [28450, 35486] \<noteq> u ''   ''"
proof -
  have "sub_answers padded_submission =
     Some [\<lparr>answer_question = Some 59, answer_answer = Some (u '' Expert '')\<rparr>,
           \<lparr>answer_question = Some 57, answer_answer = Some (u ''   '')\<rparr>]"
    by (simp add: padded_submission_def)
  moreover have "difficulty_map (u '' Expert '') = None" "language_map (u ''   '') = None"
    by (simp_all add: difficulty_map_def language_map_def u_def)
  moreover have "difficulty padded_session = u ''Expert''"
    "language padded_session = [28450, 35486]"
    by (simp_all add: padded_session_def)
  moreover have "u ''Expert'' \<noteq> u '' Expert ''" "[28450, 35486] \<noteq> u ''   ''"
    by (simp_all add: u_def)
  ultimately show ?thesis
    using padded_run by simp
qed

text \<open>
  C8 (as amended). In every session the Normalizer emits, the room is the room's
  \<^verbatim>\<open>en\<close> name, else its \<^verbatim>\<open>zh-tw\<close> name, else the placeholder \<^verbatim>\<open>Room\<close> followed by the room
  id; the track is the track's \<^verbatim>\<open>zh-tw\<close> name, else its \<^verbatim>\<open>en\<close> name, else the fixed word
  \<^verbatim>\<open>General\<close>. Room and track are never empty.
\<close>

theorem room_and_track_resolved:
  assumes "process_session lower fromiso sub sp rm tr = Inr (Some s)"
  shows "room s \<noteq> [] \<and> track s \<noteq> [] \<and>
    (\<exists>sl later room_id.
        sub_slots sub = Some (sl # later) \<and> slot_room sl = Some room_id \<and>
        room s =
          (case get_name (get_info rm room_id) (u ''en'') of
             Some (c # cs) \<Rightarrow> c # cs
           | _ \<Rightarrow> (case get_name (get_info rm room_id) (u ''zh-tw'') of
                     Some (c # cs) \<Rightarrow> c # cs
                   | _ \<Rightarrow> u ''Room'' @ str_int room_id))) \<and>
    track s =
      (case get_name (get_track_info tr (sub_track sub)) (u ''zh-tw'') of
         Some (c # cs) \<Rightarrow> c # cs
       | _ \<Rightarrow> (case get_name (get_track_info tr (sub_track sub)) (u ''en'') of
                 Some (c # cs) \<Rightarrow> c # cs
               | _ \<Rightarrow> u ''General''))"
proof -
  have g: "u ''General'' \<noteq> []" and r: "u ''Room'' @ str_int i \<noteq> []" for i
    by (simp_all add: u_def)
  from assms show ?thesis
  proof (elim process_session_Some)
    fix sl later room_id st en dy
    assume sl: "sub_slots sub = Some (sl # later)" "slot_room sl = Some room_id"
      and s: "s = \<lparr>code = sub_code sub, title = sub_title sub,
          speakers = speaker_names sp (case sub_speakers sub of None \<Rightarrow> [] | Some cs \<Rightarrow> cs),
          start = st, end_time = en,
          track = resolve_track_name tr (sub_track sub),
          abstract = truncate_abstract (case sub_abstract sub of None \<Rightarrow> [] | Some a \<Rightarrow> a),
          language = get_or_self language_map (language_value sub),
          difficulty = get_or_self difficulty_map (difficulty_value sub),
          room = resolve_room_name rm room_id, day = dy,
          tags = classify_session_tags lower (resolve_track_name tr (sub_track sub))
                   (sub_title sub) (case sub_abstract sub of None \<Rightarrow> [] | Some a \<Rightarrow> a),
          url = u ''https://coscup.org/2025/sessions/'' @ sub_code sub\<rparr>"
    have "room s = resolve_room_name rm room_id" "track s = resolve_track_name tr (sub_track sub)"
      using s by simp_all
    moreover have "resolve_room_name rm room_id \<noteq> []"
      unfolding resolve_room_name_def Let_def by (rule or_else_nonempty) (rule r)
    moreover have "resolve_track_name tr (sub_track sub) \<noteq> []"
      unfolding resolve_track_name_def Let_def by (rule or_else_nonempty) (rule g)
    ultimately show ?thesis
      using sl by (simp add: resolve_room_name_def resolve_track_name_def Let_def or_else_py_or)
  qed
qed

theorem room_and_track_resolved_witness:
  "process_session ascii_lower fromisoformat_sample sample_submission sample_speakers
     sample_rooms Map.empty = Inr (Some sample_session) \<and>
   room sample_session = u ''RB105'' \<and> track sample_session = u ''General''"
proof -
  have "room sample_session \<noteq> [] \<and> track sample_session \<noteq> []"
    using room_and_track_resolved [OF sample_run] by blast
  moreover have "room sample_session = u ''RB105''" "track sample_session = u ''General''"
    by (simp_all add: sample_session_def)
  ultimately show ?thesis
    using sample_run by simp
qed

text \<open>
  C8 as it is written fails for the track: a record with no track is emitted with the
  track \<^verbatim>\<open>General\<close>, which is no placeholder of the form \<^verbatim>\<open>Room<id>\<close>.
\<close>

theorem track_placeholder_is_General:
  "process_session ascii_lower fromisoformat_sample sample_submission sample_speakers
     sample_rooms Map.empty = Inr (Some sample_session) \<and>
   sub_track sample_submission = None \<and>
   track sample_session = u ''General'' \<and>
   \<not> prefix (u ''Room'') (track sample_session)"
proof -
  have "sub_track sample_submission = None"
    by (simp add: sample_submission_def)
  moreover have "track sample_session = u ''General''"
    by (simp add: sample_session_def)
  moreover have "\<not> prefix (u ''Room'') (u ''General'')"
    by (simp add: u_def)
  ultimately show ?thesis
    using sample_run by simp
qed

text \<open>
  C9. In every session the Normalizer emits, the abstract is the record's abstract when
  that has at most 200 code points, and otherwise its first 200 code points followed by
  three full stops; so it never has more than 203 code points.
\<close>

theorem abstract_bounded:
  assumes "process_session lower fromiso sub sp rm tr = Inr (Some s)"
  shows "(length (case sub_abstract sub of None \<Rightarrow> [] | Some a \<Rightarrow> a) \<le> 200 \<longrightarrow>
            abstract s = (case sub_abstract sub of None \<Rightarrow> [] | Some a \<Rightarrow> a)) \<and>
         (200 < length (case sub_abstract sub of None \<Rightarrow> [] | Some a \<Rightarrow> a) \<longrightarrow>
            abstract s = take 200 (case sub_abstract sub of None \<Rightarrow> [] | Some a \<Rightarrow> a) @ u ''...'') \<and>
         length (abstract s) \<le> 203"
proof -
  have "abstract s = truncate_abstract (case sub_abstract sub of None \<Rightarrow> [] | Some a \<Rightarrow> a)"
    using assms by (elim process_session_Some) simp
  then show ?thesis
    by (simp add: truncate_abstract_def u_def)
qed


theorem abstract_bounded_witness:
  "process_session ascii_lower fromisoformat_sample long_submission sample_speakers
     sample_rooms Map.empty = Inr (Some long_session) \<and>
   sub_abstract long_submission = Some (replicate 201 97) \<and>
   abstract long_session = replicate 200 97 @ u ''...'' \<and>
   length (abstract long_session) \<le> 203 \<and>
   process_session ascii_lower fromisoformat_sample sample_submission sample_speakers
     sample_rooms Map.empty = Inr (Some sample_session) \<and>
   sub_abstract sample_submission = Some (u ''Memory safety in the kernel'') \<and>
   abstract sample_session = u ''Memory safety in the kernel''"
proof -
  have a: "sub_abstract long_submission = Some (replicate 201 97)"
    "sub_abstract sample_submission = Some (u ''Memory safety in the kernel'')"
    by (simp_all add: long_submission_def sample_submission_def)
  have l: "200 < length (replicate 201 (97::nat))" "length (u ''Memory safety in the kernel'') \<le> 200"
    by (simp_all add: u_def)
  have t: "take 200 (replicate 201 (97::nat)) = replicate 200 97"
    by simp
  from abstract_bounded [OF long_run] abstract_bounded [OF sample_run] long_run sample_run a l t
  show ?thesis by (simp add: u_def)
qed

text \<open>
  C10. The Normalizer reads the first slot only: its result on a record is its result on
  the same record with every later slot removed, so no later slot changes the time, the
  day, the room or anything else of the session; and when the first slot lacks a start,
  an end or a room the record is skipped whatever the later slots are.
\<close>

theorem only_first_slot_read:
  "process_session lower fromiso (sub\<lparr>sub_slots := Some (sl # later)\<rparr>) sp rm tr =
   process_session lower fromiso (sub\<lparr>sub_slots := Some [sl]\<rparr>) sp rm tr \<and>
   (slot_start sl = None \<or> slot_end sl = None \<or> slot_room sl = None \<longrightarrow>
      process_session lower fromiso (sub\<lparr>sub_slots := Some (sl # later)\<rparr>) sp rm tr = Inr None)"
proof -
  have "difficulty_value (sub\<lparr>sub_slots := x\<rparr>) = difficulty_value sub"
    "language_value (sub\<lparr>sub_slots := x\<rparr>) = language_value sub" for x
    by (simp_all add: difficulty_value_def language_value_def)
  then have "process_session lower fromiso (sub\<lparr>sub_slots := Some (sl # later)\<rparr>) sp rm tr =
      process_session lower fromiso (sub\<lparr>sub_slots := Some [sl]\<rparr>) sp rm tr"
    by (simp add: process_session_def Let_def split: sum.splits prod.splits option.splits)
  moreover have "process_session lower fromiso (sub\<lparr>sub_slots := Some (sl # later)\<rparr>) sp rm tr
      = Inr None"
    if "slot_start sl = None \<or> slot_end sl = None \<or> slot_room sl = None"
    using that by (intro process_session_skip) auto
  ultimately show ?thesis
    by blast
qed

theorem only_first_slot_read_witness:
  "slot_room roomless_slot = None \<and>
   process_session ascii_lower fromisoformat_sample
     (sample_submission\<lparr>sub_slots := Some [roomless_slot, complete_slot]\<rparr>)
     sample_speakers sample_rooms Map.empty = Inr None \<and>
   process_session ascii_lower fromisoformat_sample
     (sample_submission\<lparr>sub_slots := Some [complete_slot, other_slot]\<rparr>)
     sample_speakers sample_rooms Map.empty = Inr (Some sample_session)"
proof -
  have r: "slot_room roomless_slot = None"
    by (simp add: roomless_slot_def)
  have s: "sample_submission\<lparr>sub_slots := Some [complete_slot]\<rparr> = sample_submission"
    by (simp add: sample_submission_def)
  from only_first_slot_read [where lower = ascii_lower and fromiso = fromisoformat_sample
      and sub = sample_submission and sl = roomless_slot and later = "[complete_slot]"
      and sp = sample_speakers and rm = sample_rooms and tr = Map.empty, THEN conjunct2]
    only_first_slot_read [where lower = ascii_lower and fromiso = fromisoformat_sample
      and sub = sample_submission and sl = complete_slot and later = "[other_slot]"
      and sp = sample_speakers and rm = sample_rooms and tr = Map.empty, THEN conjunct1]
    r s sample_run
  show ?thesis by simp
qed

section \<open>Properties of the Aggregator\<close>

lemma get_bucket_add_session:
  "get_bucket (add_session s by_day) d r =
     (if day s = d \<and> room s = r then get_bucket by_day d r @ [s] else get_bucket by_day d r)"
  by (auto simp: get_bucket_def add_session_def Let_def update_conv' split: option.splits)

lemma get_bucket_fold:
  "get_bucket (fold add_session batch by_day) d r =
     get_bucket by_day d r @ filter (\<lambda>s. day s = d \<and> room s = r) batch"
  by (induction batch arbitrary: by_day) (simp_all add: get_bucket_add_session)

lemma map_of_map_values:
  "map_of (map (\<lambda>(k, v). (k, f v)) kvs) k = map_option f (map_of kvs k)"
  by (induction kvs) auto

lemma bucket_sort_rooms:
  assumes "map_of (sort_rooms by_day) d = Some rs" "map_of rs r = Some b"
  shows "b = sort_key start (get_bucket by_day d r)"
  using assms
  by (auto simp: sort_rooms_def get_bucket_def map_of_map_values)

lemma run_loop_batch:
  assumes "run_loop lower fromiso sp rm tr subs by_day = Inr by_day'"
  shows "\<exists>batch. normalized_batch lower fromiso sp rm tr subs = Inr batch \<and>
                 by_day' = fold add_session batch by_day"
  using assms
proof (induction subs arbitrary: by_day)
  case Nil
  then show ?case by simp
next
  case (Cons sub subs)
  show ?case
  proof (cases "process_session lower fromiso sub sp rm tr")
    case (Inl e)
    with Cons.prems show ?thesis by simp
  next
    case (Inr x)
    show ?thesis
    proof (cases x)
      case None
      with Inr Cons.prems have "run_loop lower fromiso sp rm tr subs by_day = Inr by_day'"
        by simp
      from Cons.IH [OF this] Inr None show ?thesis by auto
    next
      case (Some s)
      with Inr Cons.prems
      have "run_loop lower fromiso sp rm tr subs (add_session s by_day) = Inr by_day'"
        by simp
      from Cons.IH [OF this] Inr Some show ?thesis by auto
    qed
  qed
qed

text \<open>
  C3. When \<^verbatim>\<open>run\<close> returns, every list of a day and room in the aggregate is sorted by
  \<^verbatim>\<open>start\<close>, non-decreasing; it holds exactly the normalized sessions of that day and
  room; and the sessions with one and the same \<^verbatim>\<open>start\<close> stand in the order they had in
  the batch of normalized sessions (the sort is stable).
\<close>

theorem buckets_sorted_stable:
  assumes "run lower fromiso subs sp rm tr = Inr agg"
  shows "\<exists>batch. normalized_batch lower fromiso sp rm tr subs = Inr batch \<and>
    (\<forall>d rs r b. map_of agg d = Some rs \<longrightarrow> map_of rs r = Some b \<longrightarrow>
       sorted (map start b) \<and>
       set b = {s \<in> set batch. day s = d \<and> room s = r} \<and>
       (\<forall>k. filter (\<lambda>s. start s = k) b =
            filter (\<lambda>s. start s = k) (filter (\<lambda>s. day s = d \<and> room s = r) batch)))"
proof -
  from assms obtain by_day where
    l: "run_loop lower fromiso sp rm tr subs [] = Inr by_day" and a: "agg = sort_rooms by_day"
    by (auto simp: run_def split: sum.splits)
  from run_loop_batch [OF l] obtain batch where
    n: "normalized_batch lower fromiso sp rm tr subs = Inr batch" and
    f: "by_day = fold add_session batch []"
    by blast
  have e: "get_bucket [] d r = []" for d r
    by (simp add: get_bucket_def)
  have g: "get_bucket by_day d r = filter (\<lambda>s. day s = d \<and> room s = r) batch" for d r
    by (simp add: f get_bucket_fold e)
  have "sorted (map start b) \<and>
       set b = {s \<in> set batch. day s = d \<and> room s = r} \<and>
       (\<forall>k. filter (\<lambda>s. start s = k) b =
            filter (\<lambda>s. start s = k) (filter (\<lambda>s. day s = d \<and> room s = r) batch))"
    if "map_of agg d = Some rs" "map_of rs r = Some b" for d rs r b
  proof -
    from that a have "b = sort_key start (get_bucket by_day d r)"
      by (auto intro: bucket_sort_rooms)
    then have b: "b = sort_key start (filter (\<lambda>s. day s = d \<and> room s = r) batch)"
      by (simp add: g)
    show ?thesis
      unfolding b by (auto simp: sort_key_stable)
  qed
  with n show ?thesis by blast
qed


lemma sample_batch_run:
  "run ascii_lower fromisoformat_sample sample_batch sample_speakers sample_rooms Map.empty =
     Inr sample_aggregate"
  by code_simp

theorem buckets_sorted_stable_witness:
  "run ascii_lower fromisoformat_sample sample_batch sample_speakers sample_rooms Map.empty =
     Inr sample_aggregate \<and>
   get_bucket sample_aggregate (u ''Aug.9'') (u ''RB105'') \<noteq> [] \<and>
   map code (get_bucket sample_aggregate (u ''Aug.9'') (u ''RB105'')) =
     [u ''EARLY1'', u ''JPADKC'', u ''TIE002''] \<and>
   map start (get_bucket sample_aggregate (u ''Aug.9'') (u ''RB105'')) =
     [u ''09:30'', u ''10:00'', u ''10:00''] \<and>
   sorted (map start (get_bucket sample_aggregate (u ''Aug.9'') (u ''RB105'')))"
proof -
  obtain rs b where m: "map_of sample_aggregate (u ''Aug.9'') = Some rs" "map_of rs (u ''RB105'') = Some b"
    by (simp add: sample_aggregate_def)
  then have g: "get_bucket sample_aggregate (u ''Aug.9'') (u ''RB105'') = b"
    by (simp add: get_bucket_def)
  from buckets_sorted_stable [OF sample_batch_run] m have "sorted (map start b)"
    by blast
  moreover have "map code (get_bucket sample_aggregate (u ''Aug.9'') (u ''RB105'')) =
      [u ''EARLY1'', u ''JPADKC'', u ''TIE002'']"
    "map start (get_bucket sample_aggregate (u ''Aug.9'') (u ''RB105'')) =
      [u ''09:30'', u ''10:00'', u ''10:00'']"
    by code_simp+
  ultimately show ?thesis
    using sample_batch_run g by auto
qed

section \<open>Properties of the aligned generator\<close>

lemma align_session_keeps:
  "classified_only_unknown existing_tags (snd acc) \<Longrightarrow>
   classified_only_unknown existing_tags (snd (align_session lower existing_tags s acc))"
  by (auto simp: classified_only_unknown_def align_session_def Let_def split: option.splits)

lemma fold_align_session_keeps:
  "classified_only_unknown existing_tags (snd acc) \<Longrightarrow>
   classified_only_unknown existing_tags (snd (fold (align_session lower existing_tags) ss acc))"
  by (induction ss arbitrary: acc) (simp_all add: align_session_keeps)

lemma align_room_keeps:
  "classified_only_unknown existing_tags (snd acc) \<Longrightarrow>
   classified_only_unknown existing_tags (snd (align_room lower existing_tags rs r acc))"
  by (simp add: align_room_def Let_def fold_align_session_keeps)

lemma fold_align_room_keeps:
  "classified_only_unknown existing_tags (snd acc) \<Longrightarrow>
   classified_only_unknown existing_tags (snd (fold (align_room lower existing_tags rs) ks acc))"
  by (induction ks arbitrary: acc) (simp_all add: align_room_keeps)

lemma align_day_keeps:
  "classified_only_unknown existing_tags (snd acc) \<Longrightarrow>
   classified_only_unknown existing_tags (snd (align_day lower existing_tags data d acc))"
  by (simp add: align_day_def Let_def fold_align_room_keeps)

lemma fold_align_day_keeps:
  "classified_only_unknown existing_tags (snd acc) \<Longrightarrow>
   classified_only_unknown existing_tags (snd (fold (align_day lower existing_tags data) ks acc))"
  by (induction ks arbitrary: acc) (simp_all add: align_day_keeps)

lemma generate_classified_only_unknown:
  "classified_only_unknown existing_tags
     (snd (generate_aligned_go_data lower data existing_tags))"
  unfolding generate_aligned_go_data_def Let_def snd_conv
  by (rule fold_align_day_keeps) (simp add: classified_only_unknown_def)

lemma align_session_text:
  "fst (align_session lower existing_tags s acc) =
     fst acc @ session_entry s
       (case existing_tags (code s) of None \<Rightarrow> generate_fallback_tags lower s | Some known \<Rightarrow> known)"
  by (simp add: align_session_def Let_def split: option.splits)

lemma fold_align_session_extends:
  "\<exists>more. fst (fold (align_session lower existing_tags) ss acc) = fst acc @ more"
proof (induction ss arbitrary: acc)
  case Nil
  show ?case by simp
next
  case (Cons x xs)
  from Cons.IH [of "align_session lower existing_tags x acc"]
  show ?case by (auto simp: align_session_text)
qed

lemma fold_align_session_emits:
  assumes "s \<in> set ss" "existing_tags (code s) = Some known"
  shows "sublist (session_entry s known) (fst (fold (align_session lower existing_tags) ss acc))"
  using assms(1)
proof (induction ss arbitrary: acc)
  case Nil
  then show ?case by simp
next
  case (Cons x xs)
  show ?case
  proof (cases "s \<in> set xs")
    case True
    from Cons.IH [OF this] show ?thesis by simp
  next
    case False
    with Cons.prems have x: "x = s" by simp
    from fold_align_session_extends [of lower existing_tags xs "align_session lower existing_tags s acc"]
    obtain more where "fst (fold (align_session lower existing_tags) xs
        (align_session lower existing_tags s acc)) =
        fst (align_session lower existing_tags s acc) @ more"
      by blast
    then have "fst (fold (align_session lower existing_tags) (x # xs) acc) =
        fst acc @ session_entry s known @ more"
      using x assms(2) by (simp add: align_session_text)
    then show ?thesis by simp
  qed
qed

lemma align_room_extends:
  "\<exists>more. fst (align_room lower existing_tags rs r acc) = fst acc @ more"
proof -
  from fold_align_session_extends obtain more where
    "fst (fold (align_session lower existing_tags)
        (case map_of rs r of None \<Rightarrow> [] | Some b \<Rightarrow> b)
        (fst acc @ [9, 9, 34] @ r @ [34] @ u '': {'' @ [10], snd acc)) =
     fst (fst acc @ [9, 9, 34] @ r @ [34] @ u '': {'' @ [10], snd acc) @ more"
    by blast
  then show ?thesis
    by (simp add: align_room_def Let_def)
qed

lemma align_room_emits:
  assumes "map_of rs r = Some b" "s \<in> set b" "existing_tags (code s) = Some known"
  shows "sublist (session_entry s known) (fst (align_room lower existing_tags rs r acc))"
proof -
  from fold_align_session_emits [where existing_tags = existing_tags and s = s and known = known, OF assms(2,3)]
  have "sublist (session_entry s known)
      (fst (fold (align_session lower existing_tags) b
         (fst acc @ [9, 9, 34] @ r @ [34] @ u '': {'' @ [10], snd acc)))" .
  then obtain ps ss where
    "fst (fold (align_session lower existing_tags) b
         (fst acc @ [9, 9, 34] @ r @ [34] @ u '': {'' @ [10], snd acc)) =
       ps @ session_entry s known @ ss"
    by (auto simp: sublist_def)
  then have "fst (align_room lower existing_tags rs r acc) =
      ps @ session_entry s known @ (ss @ [9, 9] @ u ''},'' @ [10])"
    using assms(1) by (simp add: align_room_def Let_def)
  then show ?thesis
    by (metis sublist_appendI)
qed

lemma fold_extends:
  assumes "\<And>k acc. \<exists>more. fst (f k acc) = fst acc @ more"
  shows "\<exists>more. fst (fold f ks acc) = fst acc @ (more :: ustr)"
proof (induction ks arbitrary: acc)
  case Nil
  show ?case by simp
next
  case (Cons k ks)
  from assms [of k acc] obtain m1 where m1: "fst (f k acc) = fst acc @ m1" by blast
  from Cons.IH [of "f k acc"] obtain m2 where "fst (fold f ks (f k acc)) = fst (f k acc) @ m2"
    by blast
  with m1 show ?case by simp
qed

lemma fold_emits:
  assumes ext: "\<And>k acc. \<exists>more. fst (f k acc) = fst acc @ (more :: ustr)"
    and emit: "\<And>acc. sublist e (fst (f k0 acc))"
    and k0: "k0 \<in> set ks"
  shows "sublist e (fst (fold f ks acc))"
  using k0
proof (induction ks arbitrary: acc)
  case Nil
  then show ?case by simp
next
  case (Cons k ks)
  show ?case
  proof (cases "k0 \<in> set ks")
    case True
    from Cons.IH [OF this] show ?thesis by simp
  next
    case False
    with Cons.prems have k: "k = k0" by simp
    from emit [of acc] obtain ps ss where e: "fst (f k0 acc) = ps @ e @ ss"
      by (auto simp: sublist_def)
    from fold_extends [of f ks "f k0 acc", OF ext] obtain more where
      "fst (fold f ks (f k0 acc)) = fst (f k0 acc) @ more"
      by blast
    with e k have "fst (fold f (k # ks) acc) = ps @ e @ (ss @ more)" by simp
    then show ?thesis by (metis sublist_appendI)
  qed
qed

lemma align_day_extends:
  "\<exists>more. fst (align_day lower existing_tags data d acc) = fst acc @ more"
proof -
  from fold_extends [of "align_room lower existing_tags
        (case map_of data d of None \<Rightarrow> [] | Some rs \<Rightarrow> rs)", OF align_room_extends]
  obtain more where
    "fst (fold (align_room lower existing_tags (case map_of data d of None \<Rightarrow> [] | Some rs \<Rightarrow> rs))
        (sort (map fst (case map_of data d of None \<Rightarrow> [] | Some rs \<Rightarrow> rs)))
        (fst acc @ [9, 34] @ d @ [34] @ u '': {'' @ [10], snd acc)) =
     fst (fst acc @ [9, 34] @ d @ [34] @ u '': {'' @ [10], snd acc) @ more"
    by blast
  then show ?thesis
    by (simp add: align_day_def Let_def)
qed

lemma align_day_emits:
  assumes "map_of data d = Some rs" "map_of rs r = Some b" "s \<in> set b"
    "existing_tags (code s) = Some known"
  shows "sublist (session_entry s known) (fst (align_day lower existing_tags data d acc))"
proof -
  from assms(2) have "r \<in> set (sort (map fst rs))"
    by (auto dest: map_of_SomeD intro: rev_image_eqI)
  from fold_emits [of "align_room lower existing_tags rs" "session_entry s known" r,
      OF align_room_extends align_room_emits [where existing_tags = existing_tags and s = s and known = known, OF assms(2,3,4)] this]
  have "sublist (session_entry s known)
      (fst (fold (align_room lower existing_tags rs) (sort (map fst rs))
         (fst acc @ [9, 34] @ d @ [34] @ u '': {'' @ [10], snd acc)))" .
  then obtain ps ss where
    "fst (fold (align_room lower existing_tags rs) (sort (map fst rs))
         (fst acc @ [9, 34] @ d @ [34] @ u '': {'' @ [10], snd acc)) =
       ps @ session_entry s known @ ss"
    by (auto simp: sublist_def)
  then have "fst (align_day lower existing_tags data d acc) =
      ps @ session_entry s known @ (ss @ [9] @ u ''},'' @ [10])"
    using assms(1) by (simp add: align_day_def Let_def)
  then show ?thesis
    by (metis sublist_appendI)
qed

lemma generate_emits:
  assumes "map_of data d = Some rs" "map_of rs r = Some b" "s \<in> set b"
    "existing_tags (code s) = Some known"
  shows "sublist (session_entry s known) (fst (generate_aligned_go_data lower data existing_tags))"
proof -
  from assms(1) have "d \<in> set (sort (map fst data))"
    by (auto dest: map_of_SomeD intro: rev_image_eqI)
  from fold_emits [of "align_day lower existing_tags data" "session_entry s known" d,
      OF align_day_extends align_day_emits [where existing_tags = existing_tags and s = s and known = known, OF assms] this]
  have "sublist (session_entry s known)
      (fst (fold (align_day lower existing_tags data) (sort (map fst data))
         (go_header, \<lparr>total_sessions = 0, existing_tags_used = 0, new_tags_generated = 0,
                      missing_sessions = []\<rparr>)))" .
  then obtain ps ss where
    "fst (fold (align_day lower existing_tags data) (sort (map fst data))
         (go_header, \<lparr>total_sessions = 0, existing_tags_used = 0, new_tags_generated = 0,
                      missing_sessions = []\<rparr>)) =
       ps @ session_entry s known @ ss"
    by (auto simp: sublist_def)
  then have "fst (generate_aligned_go_data lower data existing_tags) =
      ps @ session_entry s known @ (ss @ u ''}'' @ [10])"
    by (simp add: generate_aligned_go_data_def Let_def)
  then show ?thesis
    by (metis sublist_appendI)
qed

lemma generate_starts_with_header:
  "prefix go_header (fst (generate_aligned_go_data lower data existing_tags))"
proof -
  from fold_extends [of "align_day lower existing_tags data", OF align_day_extends]
  obtain more where
    "fst (fold (align_day lower existing_tags data) (sort (map fst data))
         (go_header, \<lparr>total_sessions = 0, existing_tags_used = 0, new_tags_generated = 0,
                      missing_sessions = []\<rparr>)) = go_header @ more"
    by force
  then show ?thesis
    by (simp add: generate_aligned_go_data_def Let_def)
qed

lemma session_entry_shape:
  "\<exists>mid. session_entry s tgs =
     [9, 9, 9] @ u ''{'' @ [10] @
     [9, 9, 9, 9] @ u ''Code:       '' @ [34] @ code s @ [34] @ u '','' @ [10] @ mid @
     [9, 9, 9, 9] @ u ''Tags:       []string{'' @ join (u '', '') (map tag_constant tgs) @
     u ''},'' @ [10] @ [9, 9, 9] @ u ''},'' @ [10]"
  unfolding session_entry_def Let_def
  by (rule exI [where x = "[9, 9, 9, 9] @ u ''Title:      '' @ [34] @ escape_go (title s) @ [34] @ u '','' @ [10] @
         [9, 9, 9, 9] @ u ''Speakers:   []string{'' @ join (u '', '') (map (\<lambda>sp. [34] @ sp @ [34]) (speakers s)) @ u ''},'' @ [10] @
         [9, 9, 9, 9] @ u ''Start:      '' @ [34] @ start s @ [34] @ u '','' @ [10] @
         [9, 9, 9, 9] @ u ''End:        '' @ [34] @ end_time s @ [34] @ u '','' @ [10] @
         [9, 9, 9, 9] @ u ''Track:      '' @ [34] @ escape_go (track s) @ [34] @ u '','' @ [10] @
         [9, 9, 9, 9] @ u ''Abstract:   '' @ [34] @ escape_go (abstract s) @ [34] @ u '','' @ [10] @
         [9, 9, 9, 9] @ u ''Language:   '' @ [34] @ language s @ [34] @ u '','' @ [10] @
         [9, 9, 9, 9] @ u ''Difficulty: '' @ [34] @ difficulty s @ [34] @ u '','' @ [10] @
         [9, 9, 9, 9] @ u ''Room:       '' @ [34] @ room s @ [34] @ u '','' @ [10] @
         [9, 9, 9, 9] @ u ''Day:        '' @ [34] @ day s @ [34] @ u '','' @ [10] @
         [9, 9, 9, 9] @ u ''URL:        '' @ [34] @ url s @ [34] @ u '','' @ [10]"]) simp

lemma tag_constants_of_vocabulary: "list_all (\<lambda>(label, c). tag_constant label = c) tag_map"
  by code_simp

text \<open>
  C1. For a session whose code is a key of the known-tags table, the generator appends
  one entry and counts it under \<^verbatim>\<open>existing_tags_used\<close>; the entry opens with the session's
  code and closes with the line \<^verbatim>\<open>Tags: []string{...}\<close> that lists the constants of the
  table's tags, in the table's order, whatever the track, title and abstract are; the
  keyword classifier has no part in it. In a whole run the generated text starts with the
  header and holds that entry for every such session of the data; the codes for which
  the classifier was called (\<^verbatim>\<open>missing_sessions\<close>) are all absent from the table, once
  for each call; and every label of the vocabulary is written as its constant.
\<close>

theorem known_tags_override:
  "(existing_tags (code s) = Some known \<longrightarrow>
      align_session lower existing_tags s (go_code, st) =
        (go_code @ session_entry s known,
         st\<lparr>total_sessions := total_sessions st + 1,
            existing_tags_used := existing_tags_used st + 1\<rparr>) \<and>
      (\<exists>mid. session_entry s known =
         [9, 9, 9] @ u ''{'' @ [10] @
         [9, 9, 9, 9] @ u ''Code:       '' @ [34] @ code s @ [34] @ u '','' @ [10] @ mid @
         [9, 9, 9, 9] @ u ''Tags:       []string{'' @ join (u '', '') (map tag_constant known) @
         u ''},'' @ [10] @ [9, 9, 9] @ u ''},'' @ [10])) \<and>
   (map_of data d = Some rs \<and> map_of rs r = Some b \<and> s \<in> set b \<and>
    existing_tags (code s) = Some known \<longrightarrow>
      sublist (session_entry s known)
        (fst (generate_aligned_go_data lower data existing_tags))) \<and>
   prefix go_header (fst (generate_aligned_go_data lower data existing_tags)) \<and>
   (\<forall>c \<in> set (missing_sessions (snd (generate_aligned_go_data lower data existing_tags))).
      existing_tags c = None) \<and>
   new_tags_generated (snd (generate_aligned_go_data lower data existing_tags)) =
     length (missing_sessions (snd (generate_aligned_go_data lower data existing_tags))) \<and>
   list_all (\<lambda>(label, c). tag_constant label = c) tag_map"
proof -
  have "align_session lower existing_tags s (go_code, st) =
        (go_code @ session_entry s known,
         st\<lparr>total_sessions := total_sessions st + 1,
            existing_tags_used := existing_tags_used st + 1\<rparr>)"
    if "existing_tags (code s) = Some known"
    using that by (simp add: align_session_def Let_def)
  moreover have "sublist (session_entry s known)
        (fst (generate_aligned_go_data lower data existing_tags))"
    if "map_of data d = Some rs \<and> map_of rs r = Some b \<and> s \<in> set b \<and>
        existing_tags (code s) = Some known"
    using that
    by (intro generate_emits [where existing_tags = existing_tags and s = s and known = known
          and d = d and rs = rs and r = r and b = b]) simp_all
  moreover have "\<forall>c \<in> set (missing_sessions
        (snd (generate_aligned_go_data lower data existing_tags))). existing_tags c = None"
    "new_tags_generated (snd (generate_aligned_go_data lower data existing_tags)) =
     length (missing_sessions (snd (generate_aligned_go_data lower data existing_tags)))"
    using generate_classified_only_unknown [of existing_tags lower data]
    by (simp_all add: classified_only_unknown_def list_all_iff)
  ultimately show ?thesis
    using session_entry_shape [of s known] generate_starts_with_header [of lower data existing_tags]
      tag_constants_of_vocabulary
    by blast
qed

theorem known_tags_override_witness:
  "sample_existing_tags (code sample_session) = Some [TagAI, TagKeynote] \<and>
   generate_fallback_tags ascii_lower sample_session = [TagSystem, TagLanguages] \<and>
   align_session ascii_lower sample_existing_tags sample_session
       (go_header, \<lparr>total_sessions = 0, existing_tags_used = 0, new_tags_generated = 0,
                    missing_sessions = []\<rparr>) =
     (go_header @ session_entry sample_session [TagAI, TagKeynote],
      \<lparr>total_sessions = 1, existing_tags_used = 1, new_tags_generated = 0,
       missing_sessions = []\<rparr>) \<and>
   join (u '', '') (map tag_constant [TagAI, TagKeynote]) = u ''TagAI, TagKeynote'' \<and>
   get_bucket sample_aggregate (u ''Aug.9'') (u ''RB105'') ! 1 = sample_session \<and>
   sublist (session_entry sample_session [TagAI, TagKeynote])
     (fst (generate_aligned_go_data ascii_lower sample_aggregate sample_existing_tags)) \<and>
   missing_sessions
     (snd (generate_aligned_go_data ascii_lower sample_aggregate sample_existing_tags)) =
     [u ''EARLY1'', u ''TIE002''] \<and>
   sample_existing_tags (u ''EARLY1'') = None \<and> sample_existing_tags (u ''TIE002'') = None \<and>
   new_tags_generated
     (snd (generate_aligned_go_data ascii_lower sample_aggregate sample_existing_tags)) = 2"
proof -
  define b where "b = get_bucket sample_aggregate (u ''Aug.9'') (u ''RB105'')"
  have k: "sample_existing_tags (code sample_session) = Some [TagAI, TagKeynote]"
    by code_simp
  have f: "generate_fallback_tags ascii_lower sample_session = [TagSystem, TagLanguages]"
    by code_simp
  have j: "join (u '', '') (map tag_constant [TagAI, TagKeynote]) = u ''TagAI, TagKeynote''"
    by code_simp
  have m: "missing_sessions
      (snd (generate_aligned_go_data ascii_lower sample_aggregate sample_existing_tags)) =
      [u ''EARLY1'', u ''TIE002'']"
    by code_simp
  have d: "map_of sample_aggregate (u ''Aug.9'') = Some [(u ''RB105'', b)]"
    "map_of [(u ''RB105'', b)] (u ''RB105'') = Some b"
    by (simp_all add: b_def sample_aggregate_def get_bucket_def)
  have s: "b ! 1 = sample_session" "sample_session \<in> set b"
    by (simp_all add: b_def sample_aggregate_def get_bucket_def)
  from known_tags_override [where existing_tags = sample_existing_tags and s = sample_session
      and known = "[TagAI, TagKeynote]" and lower = ascii_lower and go_code = go_header
      and st = "\<lparr>total_sessions = 0, existing_tags_used = 0, new_tags_generated = 0,
                 missing_sessions = []\<rparr>" and data = sample_aggregate
      and d = "u ''Aug.9''" and rs = "[(u ''RB105'', b)]" and r = "u ''RB105''" and b = b]
    k f j m d s
  show ?thesis by (simp add: b_def)
qed

section \<open>The cap on the number of tags\<close>

lemma generate_tags_collect_nonempty: "generate_tags_collect lower s \<noteq> []"
  by (simp add: generate_tags_collect_def Let_def u_def)

text \<open>
  C6 (as amended). The cap is no parameter. \<^verbatim>\<open>generate_tags\<close> takes the session alone and
  returns the first two of the tags it collects (all of them when there are fewer), so
  one or two tags for every input. \<^verbatim>\<open>classify_session_tags\<close> has no cap: when rules fire
  it returns as many tags as rules fire, up to all twelve.
\<close>

theorem tag_cap_is_two_or_absent:
  "generate_tags lower s = take 2 (generate_tags_collect lower s) \<and>
   length (generate_tags lower s) \<le> 2 \<and>
   generate_tags lower s \<noteq> [] \<and>
   (firing_tags classify_rules (classify_text lower tr ti ab) \<noteq> [] \<longrightarrow>
      length (classify_session_tags lower tr ti ab) =
        length (filter (fires (classify_text lower tr ti ab)) classify_rules)) \<and>
   length (classify_session_tags ascii_lower [] twelve_topics []) = 12"
proof -
  have "length (classify_session_tags ascii_lower [] twelve_topics []) = 12"
    by code_simp
  moreover have "generate_tags lower s \<noteq> []"
    using generate_tags_collect_nonempty [of lower s]
    by (simp add: generate_tags_def)
  ultimately show ?thesis
    by (simp add: generate_tags_def classify_session_tags_def Let_def classify_collect_firing
          firing_tags_def)
qed

theorem tag_cap_is_two_or_absent_witness:
  "generate_tags_collect ascii_lower three_topics =
     [u ''TagAI'', u ''TagLanguages'', u ''TagSecurity''] \<and>
   generate_tags ascii_lower three_topics = [u ''TagAI'', u ''TagLanguages''] \<and>
   firing_tags classify_rules (classify_text ascii_lower (u ''AI'') (u ''Go security'') []) =
     [TagAI, TagSecurity, TagLanguages] \<and>
   length (classify_session_tags ascii_lower (u ''AI'') (u ''Go security'') []) = 3"
proof -
  have c: "generate_tags_collect ascii_lower three_topics =
      [u ''TagAI'', u ''TagLanguages'', u ''TagSecurity'']"
    by code_simp
  have f: "firing_tags classify_rules (classify_text ascii_lower (u ''AI'') (u ''Go security'') [])
      = [TagAI, TagSecurity, TagLanguages]"
    by code_simp
  then have n: "length (filter (fires (classify_text ascii_lower (u ''AI'') (u ''Go security'') []))
      classify_rules) = 3"
    by (simp add: firing_tags_def flip: length_map [where f = fst])
  from tag_cap_is_two_or_absent [of ascii_lower three_topics "u ''AI''" "u ''Go security''" "[]"]
    c f n
  show ?thesis by simp
qed

text \<open>
  C6 as it is written fails: the two paths are not one classifier under two settings of a
  cap. On a session with track \<^verbatim>\<open>AI\<close> and title \<^verbatim>\<open>Go security\<close> three rules fire in each;
  \<^verbatim>\<open>generate_tags\<close>, which has no argument but the session, returns two of its three
  tags, and they are not the first two tags of \<^verbatim>\<open>classify_session_tags\<close>.
\<close>

theorem cap_is_not_a_parameter:
  "length (generate_tags_collect ascii_lower three_topics) = 3 \<and>
   generate_tags ascii_lower three_topics = [u ''TagAI'', u ''TagLanguages''] \<and>
   map tag_constant (take 2 (classify_session_tags ascii_lower (u ''AI'') (u ''Go security'') []))
     = [u ''TagAI'', u ''TagSecurity''] \<and>
   generate_tags ascii_lower three_topics \<noteq>
     map tag_constant (take 2 (classify_session_tags ascii_lower (u ''AI'') (u ''Go security'') []))"
  by code_simp

end
